theory Spec2Isabelle
  imports Main
begin

section \<open>Python values\<close>

text \<open>
  A Python \<open>str\<close> is a sequence of Unicode code points and \<open>len\<close> counts code points, so a
  string is modelled as the list of its code points. \<open>py\<close> turns an ASCII literal of the
  source into that form. A \<open>bytes\<close> value is the list of its byte values.
\<close>

type_synonym pystr = "nat list"
type_synonym bytes = "nat list"

abbreviation py :: "string \<Rightarrow> pystr" where
  "py s \<equiv> map of_char s"

text \<open>
  The exceptions that the modelled code can raise; all of them derive from \<open>Exception\<close>.
  \<open>OSError\<close> stands for the class and its subclasses (\<open>FileNotFoundError\<close>,
  \<open>NotADirectoryError\<close>, \<open>IsADirectoryError\<close>).
\<close>

datatype exn =
    KeyError | TypeError | AttributeError | ValueError | OSError | JSONDecodeError

text \<open>Sequencing of statements that may raise: the first exception ends the block.\<close>

definition and_then :: "exn + 'a \<Rightarrow> ('a \<Rightarrow> exn + 'b) \<Rightarrow> exn + 'b" where
  "and_then r f = (case r of Inl e \<Rightarrow> Inl e | Inr v \<Rightarrow> f v)"

text \<open>
  What \<open>json.load\<close> returns. A number is only ever formatted by the code, never computed
  with, so it is carried as the text \<open>str()\<close> prints for it. An object is the list of its
  members; lookup takes the first entry of a key.
\<close>

datatype json =
    JNull
  | JBool bool
  | JNum pystr
  | JStr pystr
  | JArr "json list"
  | JObj "(pystr \<times> json) list"

text \<open>\<open>d[k]\<close>: only a dict can be subscripted by a string; a missing key raises.\<close>

fun getitem :: "json \<Rightarrow> pystr \<Rightarrow> exn + json" where
  "getitem (JObj kvs) k = (case map_of kvs k of None \<Rightarrow> Inl KeyError | Some v \<Rightarrow> Inr v)"
| "getitem _ k = Inl TypeError"

text \<open>\<open>d.get(k, default)\<close>: only a dict has the method.\<close>

fun dict_get :: "json \<Rightarrow> pystr \<Rightarrow> json \<Rightarrow> exn + json" where
  "dict_get (JObj kvs) k dflt = Inr (case map_of kvs k of None \<Rightarrow> dflt | Some v \<Rightarrow> v)"
| "dict_get _ k dflt = Inl AttributeError"

text \<open>\<open>str(n)\<close> for a non-negative integer: its decimal digits.\<close>

fun str_of_nat :: "nat \<Rightarrow> pystr" where
  "str_of_nat n = (if n < 10 then [48 + n] else str_of_nat (n div 10) @ [48 + n mod 10])"

declare str_of_nat.simps [simp del]

text \<open>\<open>s.endswith(suffix)\<close>.\<close>

definition endswith :: "pystr \<Rightarrow> pystr \<Rightarrow> bool" where
  "endswith s suffix = (length suffix \<le> length s \<and> drop (length s - length suffix) s = suffix)"

subsection \<open>\<open>bytes.fromhex\<close>\<close>

text \<open>
  The library function, as CPython 3.7 and later implement it: ASCII whitespace between
  bytes is skipped, every byte is two hexadecimal digits with nothing between them, and
  anything else raises \<open>ValueError\<close>.
\<close>

definition isspace :: "nat \<Rightarrow> bool" where
  "isspace c = (c = 32 \<or> (9 \<le> c \<and> c \<le> 13))"

definition digit_value :: "nat \<Rightarrow> nat option" where
  "digit_value c =
     (if 48 \<le> c \<and> c \<le> 57 then Some (c - 48)
      else if 97 \<le> c \<and> c \<le> 102 then Some (c - 87)
      else if 65 \<le> c \<and> c \<le> 70 then Some (c - 55)
      else None)"

fun fromhex :: "pystr \<Rightarrow> exn + bytes" where
  "fromhex [] = Inr []"
| "fromhex [c] = (if isspace c then Inr [] else Inl ValueError)"
| "fromhex (c # d # cs) =
     (if isspace c then fromhex (d # cs)
      else case (digit_value c, digit_value d) of
             (Some hi, Some lo) \<Rightarrow>
               (case fromhex cs of Inl e \<Rightarrow> Inl e | Inr bs \<Rightarrow> Inr ((hi * 16 + lo) # bs))
           | _ \<Rightarrow> Inl ValueError)"

text \<open>In the source the argument comes from JSON: anything but a \<open>str\<close> is a \<open>TypeError\<close>.\<close>

fun bytes_fromhex :: "json \<Rightarrow> exn + bytes" where
  "bytes_fromhex (JStr s) = fromhex s"
| "bytes_fromhex _ = Inl TypeError"

section \<open>Key synthesis (\<open>gen_missing_key.py\<close>)\<close>

text \<open>
  One loop of \<open>generate_key_file\<close>: for the sectors of the list in order, fetch the entry of
  \<open>str(sector)\<close> (default \<open>{}\<close>), fetch its field (default \<open>FFFFFFFFFFFF\<close>), decode it and
  append the bytes to the accumulator.
\<close>

fun collect_keys :: "json \<Rightarrow> pystr \<Rightarrow> nat list \<Rightarrow> bytes \<Rightarrow> exn + bytes" where
  "collect_keys sector_keys field [] key_bytes = Inr key_bytes"
| "collect_keys sector_keys field (sector # rest) key_bytes =
     and_then (dict_get sector_keys (str_of_nat sector) (JObj [])) (\<lambda>entry.
     and_then (dict_get entry field (JStr (py ''FFFFFFFFFFFF''))) (\<lambda>key_hex.
     and_then (bytes_fromhex key_hex) (\<lambda>bs.
     collect_keys sector_keys field rest (key_bytes @ bs))))"

text \<open>
  Lines 56 to 75: the UID, the sector keys, then the KeyA loop and the KeyB loop over
  \<open>range(16)\<close>. The result is the UID and the accumulated bytes.
\<close>

definition build_key_bytes :: "json \<Rightarrow> exn + (json \<times> bytes)" where
  "build_key_bytes data =
     and_then (getitem data (py ''Card'')) (\<lambda>card.
     and_then (getitem card (py ''UID'')) (\<lambda>uid.
     and_then (getitem data (py ''SectorKeys'')) (\<lambda>sector_keys.
     and_then (collect_keys sector_keys (py ''KeyA'') [0..<16] []) (\<lambda>key_bytes.
     and_then (collect_keys sector_keys (py ''KeyB'') [0..<16] key_bytes) (\<lambda>key_bytes.
     Inr (uid, key_bytes))))))"

section \<open>The directory tree\<close>

text \<open>
  The scripts run in \<open><project>/scripts\<close> and address everything through \<open>Path("..")\<close>, the
  project root. The file system is the tree under that root: a directory holds its files
  (name and content, in listing order) and its subdirectories (name and tree, in listing
  order); an entry is found by the first match of its name. A \<open>Path\<close> below the root is
  modelled by the list of its components after the leading \<open>..\<close>, so \<open>base_path\<close> is the
  empty list and \<open>parts\<close> puts the \<open>..\<close> back. Symbolic links and permissions are not
  modelled.
\<close>

datatype dir = Dir (files: "(pystr \<times> bytes) list") (subdirs: "(pystr \<times> dir) list")

type_synonym path = "pystr list"

definition base_path :: path where
  "base_path = []"

definition parts :: "path \<Rightarrow> pystr list" where
  "parts p = py ''..'' # p"

definition name :: "path \<Rightarrow> pystr" where
  "name p = last (parts p)"

fun lookup_dir :: "dir \<Rightarrow> path \<Rightarrow> dir option" where
  "lookup_dir t [] = Some t"
| "lookup_dir (Dir fs subs) (n # p) =
     (case map_of subs n of None \<Rightarrow> None | Some d \<Rightarrow> lookup_dir d p)"

text \<open>\<open>modify_dir p f t\<close> replaces the directory at \<open>p\<close> by its image under \<open>f\<close>.\<close>

fun modify_dir :: "path \<Rightarrow> (dir \<Rightarrow> dir) \<Rightarrow> dir \<Rightarrow> dir" where
  "modify_dir [] f t = f t"
| "modify_dir (n # p) f (Dir fs subs) =
     Dir fs (map (\<lambda>(m, d). if m = n then (m, modify_dir p f d) else (m, d)) subs)"

subsection \<open>Paths and files\<close>

text \<open>
  \<open>directory / name\<close>: \<open>pathlib\<close> splits the name at the separators and drops empty
  components and single dots; double dots stay. A name that starts with a separator is
  absolute and replaces the directory: it points outside the project tree, of which the
  model holds nothing.
\<close>

fun split_slash :: "pystr \<Rightarrow> pystr list" where
  "split_slash [] = [[]]"
| "split_slash (c # cs) =
     (if c = 47 then [] # split_slash cs
      else case split_slash cs of w # ws \<Rightarrow> (c # w) # ws | [] \<Rightarrow> [[c]])"

definition name_parts :: "pystr \<Rightarrow> pystr list" where
  "name_parts n = filter (\<lambda>w. w \<noteq> [] \<and> w \<noteq> py ''.'') (split_slash n)"

definition joined :: "path \<Rightarrow> pystr \<Rightarrow> path" where
  "joined directory n = directory @ name_parts n"

definition join_path :: "path \<Rightarrow> pystr \<Rightarrow> exn + path" where
  "join_path directory n =
     (if n \<noteq> [] \<and> hd n = 47 then Inl OSError else Inr (joined directory n))"

text \<open>
  How the operating system resolves the components of a path, from the project root:
  a name must be a directory of the current one, and \<open>..\<close> goes up (above the root it
  leaves the tree). The result is the directory reached, as a path without \<open>..\<close>.
\<close>

fun walk_to :: "dir \<Rightarrow> path \<Rightarrow> pystr list \<Rightarrow> exn + path" where
  "walk_to t cur [] = Inr cur"
| "walk_to t cur (c # cs) =
     (if c = py ''..'' then (if cur = [] then Inl OSError else walk_to t (butlast cur) cs)
      else case lookup_dir t (cur @ [c]) of
             None \<Rightarrow> Inl OSError
           | Some d \<Rightarrow> walk_to t (cur @ [c]) cs)"

text \<open>
  The place of a file that a path denotes: the directory that holds it and its name there.
  A NUL character is a \<open>ValueError\<close> of \<open>open\<close>; a path that ends at a directory cannot
  be opened as a file.
\<close>

definition locate :: "dir \<Rightarrow> path \<Rightarrow> exn + (path \<times> pystr)" where
  "locate t p =
     (if 0 \<in> set (concat p) then Inl ValueError
      else if p = [] then Inl OSError
      else and_then (walk_to t [] (butlast p)) (\<lambda>dp.
           if last p = py ''..'' then Inl OSError
           else case lookup_dir t (dp @ [last p]) of
                  Some d \<Rightarrow> Inl OSError
                | None \<Rightarrow> Inr (dp, last p)))"

text \<open>\<open>open(path, 'r')\<close> or \<open>open(path, 'rb')\<close> and reading the whole file.\<close>

definition read_path :: "dir \<Rightarrow> path \<Rightarrow> exn + bytes" where
  "read_path t p =
     and_then (locate t p) (\<lambda>(dp, f).
       case lookup_dir t dp of
         None \<Rightarrow> Inl OSError
       | Some d \<Rightarrow>
           (case map_of (files d) f of
              None \<Rightarrow> Inl OSError
            | Some content \<Rightarrow> Inr content))"

definition read_file :: "dir \<Rightarrow> path \<Rightarrow> pystr \<Rightarrow> exn + bytes" where
  "read_file t directory n = and_then (join_path directory n) (read_path t)"

text \<open>Storing a file in a listing: an existing entry keeps its place, a new one goes last.\<close>

fun put_file :: "pystr \<Rightarrow> bytes \<Rightarrow> (pystr \<times> bytes) list \<Rightarrow> (pystr \<times> bytes) list" where
  "put_file n content [] = [(n, content)]"
| "put_file n content ((m, old) # fs) =
     (if m = n then (m, content) # fs else (m, old) # put_file n content fs)"

definition store :: "dir \<Rightarrow> path \<Rightarrow> pystr \<Rightarrow> bytes \<Rightarrow> dir" where
  "store t dp f content = modify_dir dp (\<lambda>d. Dir (put_file f content (files d)) (subdirs d)) t"

text \<open>
  \<open>with open(directory / name, 'wb') as f: f.write(content)\<close>, in its two steps. \<open>open\<close>
  fails and leaves the file system as it was, or it creates the file, or empties the one
  that is there. The write, with the closing of the file, then stores the content, or it
  raises after only the first \<open>k\<close> bytes have reached the file (a full disk, a device
  error): which of the two is the environment's and is the parameter \<open>fault\<close>. The result
  is the exception, if any, and the file system that is left.
\<close>

type_synonym fault = "path \<Rightarrow> bytes \<Rightarrow> (exn \<times> nat) option"

definition write_file :: "fault \<Rightarrow> dir \<Rightarrow> path \<Rightarrow> pystr \<Rightarrow> bytes \<Rightarrow> exn option \<times> dir" where
  "write_file fault t directory n content =
     (case and_then (join_path directory n) (locate t) of
        Inl e \<Rightarrow> (Some e, t)
      | Inr (dp, f) \<Rightarrow>
          (case fault (dp @ [f]) content of
             None \<Rightarrow> (None, store t dp f content)
           | Some (e, k) \<Rightarrow> (Some e, store t dp f (take k content))))"

subsection \<open>\<open>os.walk\<close>\<close>

text \<open>
  The top-down walk: the loop body of the caller sees \<open>(root, dirs, files)\<close> of a directory
  and may prune \<open>dirs\<close>; the walk then enters the remaining names in order, each looked up
  again under its path. \<open>body\<close> returns the pruned \<open>dirs\<close> and what the iteration appends to
  the caller's result list.
\<close>

function os_walk ::
  "(path \<Rightarrow> pystr list \<Rightarrow> pystr list \<Rightarrow> pystr list \<times> 'a list) \<Rightarrow> path \<Rightarrow> dir \<Rightarrow> 'a list" where
  "os_walk body root (Dir fs subs) =
     (case body root (map fst subs) (map fst fs) of
        (dirs, out) \<Rightarrow>
          out @ concat (map (\<lambda>n. case map_of subs n of
                                    None \<Rightarrow> []
                                  | Some d \<Rightarrow> os_walk body (root @ [n]) d) dirs))"
  by pat_completeness auto
termination
proof (relation "measure (\<lambda>(body, root, t). size t)")
  show "wf (measure (\<lambda>(body :: path \<Rightarrow> pystr list \<Rightarrow> pystr list \<Rightarrow> pystr list \<times> 'a list,
                        root :: path, t :: dir). size t))"
    by simp
next
  fix body :: "path \<Rightarrow> pystr list \<Rightarrow> pystr list \<Rightarrow> pystr list \<times> 'a list"
  fix root :: path and fs :: "(pystr \<times> bytes) list"
  fix subs :: "(pystr \<times> dir) list" and n :: pystr and d :: dir
  assume "map_of subs n = Some d"
  then have "(n, d) \<in> set subs"
    by (rule map_of_SomeD)
  then have "size_prod (\<lambda>_. 0) size (n, d) \<le> size_list (size_prod (\<lambda>_. 0) size) subs"
    by (simp add: size_list_estimation')
  then show "((body, root @ [n], d), (body, root, Dir fs subs))
               \<in> measure (\<lambda>(body, root, t). size t)"
    by simp
qed

subsection \<open>The classifier\<close>

text \<open>
  The test both scripts apply to the name of a visited directory
  (\<open>gen_missing_key.py\<close> line 34, \<open>gen_excel.py\<close> line 133).
\<close>

definition is_uid_dir :: "pystr \<Rightarrow> bool" where
  "is_uid_dir current_dir =
     (length current_dir = 8 \<and> (\<forall>c \<in> set current_dir. c \<in> set (py ''0123456789ABCDEFabcdef'')))"

text \<open>The body of the loop of \<open>find_missing_key_files\<close>.\<close>

definition missing_body :: "path \<Rightarrow> pystr list \<Rightarrow> pystr list \<Rightarrow> pystr list \<times> (path \<times> pystr) list" where
  "missing_body root dirs fs =
     (if root = base_path then
        (if py ''scripts'' \<in> set dirs then remove1 (py ''scripts'') dirs else dirs, [])
      else if py ''scripts'' \<in> set (parts root) then (dirs, [])
      else if is_uid_dir (name root) then
        (let json_files = filter (\<lambda>f. endswith f (py ''dump.json'')) fs;
             key_files = filter (\<lambda>f. endswith f (py ''key.bin'')) fs
         in if json_files \<noteq> [] \<and> key_files = [] then (dirs, [(root, hd json_files)])
            else (dirs, []))
      else (dirs, []))"

definition find_missing_key_files :: "dir \<Rightarrow> (path \<times> pystr) list" where
  "find_missing_key_files t = os_walk missing_body base_path t"

subsection \<open>\<open>generate_key_file\<close>\<close>

text \<open>
  The f-string \<open>{uid}\<close>: a \<open>str\<close> is inserted as it is, a number as its text, \<open>None\<close>, \<open>True\<close>
  and \<open>False\<close> by name. The \<open>repr\<close> of a list or a dict is Python's own and is a parameter.
\<close>

fun format_value :: "(json \<Rightarrow> pystr) \<Rightarrow> json \<Rightarrow> pystr" where
  "format_value repr (JStr s) = s"
| "format_value repr (JNum s) = s"
| "format_value repr JNull = py ''None''"
| "format_value repr (JBool b) = (if b then py ''True'' else py ''False'')"
| "format_value repr v = repr v"

text \<open>
  What the call returns: \<open>(True, len(key_bytes), str(output_path))\<close> or
  \<open>(False, str(e), None)\<close>; the message of the exception is not modelled beyond its class.
\<close>

datatype outcome = Generated nat path | Failed exn

text \<open>The derived file name, \<open>f'hf-mf-{uid}-key.bin'\<close>.\<close>

definition output_name :: "(json \<Rightarrow> pystr) \<Rightarrow> json \<Rightarrow> pystr" where
  "output_name repr uid = py ''hf-mf-'' @ format_value repr uid @ py ''-key.bin''"

text \<open>
  \<open>json.load\<close> (with the decoding of the file) is the library's and is a parameter. The
  function returns its outcome and the file system it leaves; the \<open>except\<close> clause turns
  every exception of the body into a failure. Up to the \<open>open\<close> of the output file
  nothing is written; an exception of the write leaves what the write has left.
\<close>

definition generate_key_file ::
  "(bytes \<Rightarrow> exn + json) \<Rightarrow> (json \<Rightarrow> pystr) \<Rightarrow> fault \<Rightarrow> dir \<Rightarrow> path \<Rightarrow> pystr \<Rightarrow> outcome \<times> dir" where
  "generate_key_file json_load repr fault t directory json_filename =
     (case and_then (read_file t directory json_filename) (\<lambda>text.
           and_then (json_load text) build_key_bytes) of
        Inl e \<Rightarrow> (Failed e, t)
      | Inr (uid, key_bytes) \<Rightarrow>
          (case write_file fault t directory (output_name repr uid) key_bytes of
             (Some e, t') \<Rightarrow> (Failed e, t')
           | (None, t') \<Rightarrow>
               (Generated (length key_bytes) (joined directory (output_name repr uid)), t')))"

subsection \<open>\<open>main\<close>\<close>




section \<open>The report (\<open>gen_excel.py\<close>)\<close>

text \<open>
  The literals of the script that are not ASCII, as code points: the placeholder for an
  unknown value, the placeholder for a failed parse, the unit of the temperature and the
  two prefixes of the statistics keys.
\<close>

definition unknown :: pystr where
  "unknown = [26410, 30693]"





text \<open>The table of \<open>translate_color\<close>, in the order of the source.\<close>

definition color_map :: "(pystr \<times> pystr) list" where
  "color_map =
     [
      (py ''Black'', [40657, 33394]),
      (py ''White'', [30333, 33394]),
      (py ''Red'', [32418, 33394]),
      (py ''Blue'', [34013, 33394]),
      (py ''Green'', [32511, 33394]),
      (py ''Yellow'', [40644, 33394]),
      (py ''Orange'', [27225, 33394]),
      (py ''Purple'', [32043, 33394]),
      (py ''Pink'', [31881, 33394]),
      (py ''Gray'', [28784, 33394]),
      (py ''Grey'', [28784, 33394]),
      (py ''Silver'', [38134, 33394]),
      (py ''Gold'', [37329, 33394]),
      (py ''Bronze'', [38738, 38108, 33394]),
      (py ''Cyan'', [38738, 33394]),
      (py ''Magenta'', [27915, 32418, 33394]),
      (py ''Beige'', [31859, 33394]),
      (py ''Brown'', [26837, 33394]),
      (py ''Transparent'', [36879, 26126]),
      (py ''Clear'', [36879, 26126]),
      (py ''Translucent'', [21322, 36879, 26126]),
      (py ''Hot Pink'', [28909, 31881, 33394]),
      (py ''Dark Gray'', [28145, 28784, 33394]),
      (py ''Dark Grey'', [28145, 28784, 33394]),
      (py ''Light Gray'', [27973, 28784, 33394]),
      (py ''Light Grey'', [27973, 28784, 33394]),
      (py ''Blue Gray'', [34013, 28784, 33394]),
      (py ''Blue Grey'', [34013, 28784, 33394]),
      (py ''Bambu Green'', [25299, 31481, 32511]),
      (py ''Apple Green'', [33529, 26524, 32511]),
      (py ''Grass Green'', [33609, 32511, 33394]),
      (py ''Forest Green'', [26862, 26519, 32511]),
      (py ''Lime Green'', [26592, 27308, 32511]),
      (py ''Lake Blue'', [28246, 34013, 33394]),
      (py ''Ice Blue'', [20912, 34013, 33394]),
      (py ''Sky Blue'', [22825, 34013, 33394]),
      (py ''Marine Blue'', [28023, 34013, 33394]),
      (py ''Royal Purple'', [30343, 23460, 32043]),
      (py ''Lilac Purple'', [19969, 39321, 32043]),
      (py ''Scarlet Red'', [29481, 32418, 33394]),
      (py ''Lemon Yellow'', [26592, 27308, 40644]),
      (py ''Ivory White'', [35937, 29273, 30333]),
      (py ''Jade White'', [29577, 30333, 33394]),
      (py ''Cream'', [22902, 27833, 33394]),
      (py ''Desert Tan'', [27801, 28448, 26837]),
      (py ''Peanut Brown'', [33457, 29983, 26837]),
      (py ''Dark Brown'', [28145, 26837, 33394]),
      (py ''Terracotta'', [36196, 38518, 33394]),
      (py ''Charcoal'', [28845, 40657, 33394]),
      (py ''Ash Gray'', [28784, 30333, 33394]),
      (py ''Nardo Gray'', [32435, 22810, 28784]),
      (py ''Nebulae'', [26143, 20113, 33394]),
      (py ''Blue Hawaii (Blue-Green)'', [22799, 23041, 22839, 34013, 65288, 34013, 32511, 33394, 65289]),
      (py ''Gilded Rose (Pink-Gold)'', [38208, 37329, 29611, 29808, 65288, 31881, 37329, 33394, 65289]),
      (py ''Midnight Blaze (Blue-Red)'', [21320, 22812, 28872, 28976, 65288, 34013, 32418, 33394, 65289]),
      (py ''Neon City (Blue-Magenta)'', [38675, 34425, 22478, 24066, 65288, 34013, 27915, 32418, 33394, 65289])
     ]"

definition translate_color :: "pystr \<Rightarrow> pystr" where
  "translate_color english_color =
     (case map_of color_map english_color of None \<Rightarrow> english_color | Some chinese \<Rightarrow> chinese)"

text \<open>
  \<open>extract_path_info\<close>. The argument is \<open>Path(file_path).parts\<close>, the components that
  \<open>pathlib\<close> splits the path into.
\<close>

definition extract_path_info :: "pystr list \<Rightarrow> pystr \<times> pystr \<times> pystr \<times> pystr \<times> pystr" where
  "extract_path_info path_parts =
     (let relevant_parts = filter (\<lambda>part. part \<notin> set [py ''.'', py ''..'']) path_parts
      in if length relevant_parts \<ge> 3 then
           (let material_category = relevant_parts ! 0;
                material_type = relevant_parts ! 1;
                color = relevant_parts ! 2;
                uid = (if length relevant_parts > 3 then relevant_parts ! 3 else unknown);
                color_chinese = translate_color color;
                color_display =
                  (if color_chinese \<noteq> color then color_chinese @ py ''/'' @ color else color)
            in (material_category, material_type, color, uid, color_display))
         else (unknown, unknown, unknown, unknown, unknown))"

text \<open>The body of the loop of \<open>find_rfid_files\<close>.\<close>

definition rfid_body :: "path \<Rightarrow> pystr list \<Rightarrow> pystr list \<Rightarrow> pystr list \<times> path list" where
  "rfid_body root dirs fs =
     (if root = base_path then
        (if py ''scripts'' \<in> set dirs then remove1 (py ''scripts'') dirs else dirs, [])
      else if py ''scripts'' \<in> set (parts root) then (dirs, [])
      else if is_uid_dir (name root) then
        (dirs, map (\<lambda>file. root @ [file]) (filter (\<lambda>file. endswith file (py ''dump.bin'')) fs))
      else (dirs, []))"

definition find_rfid_files :: "dir \<Rightarrow> path list" where
  "find_rfid_files t = os_walk rfid_body base_path t"

subsection \<open>The external parser\<close>

text \<open>
  The tag parser is not part of the scripts. What it returns is modelled as far as the
  report looks at it: strings, numbers (carried as their text), \<open>None\<close>, dicts, and objects
  with attributes. A tag has its \<open>data\<close> and its truth value. The parser itself, and the
  formatting of a value in an f-string, are parameters.
\<close>

datatype pyval =
    VNone
  | VStr pystr
  | VNum pystr
  | VDict "(pystr \<times> pyval) list"
  | VObj "(pystr \<times> pyval) list"

record tag =
  truthy :: bool
  data :: pyval





subsection \<open>The loop of \<open>main\<close>\<close>








section \<open>What the specification says of the key blob\<close>

text \<open>
  The notions of the specification, written down independently of the code: a hexadecimal
  digit, a 12-character hexadecimal string, the bytes that pairs of hexadecimal digits
  denote, the value a document gives for a key field of a sector, a document whose keys
  are all well-formed, the six bytes of a slot, and the layout of the blob: the sixteen
  KeyA slots in ascending sector order, then the sixteen KeyB slots.
\<close>

definition hexdigit :: "nat \<Rightarrow> bool" where
  "hexdigit c = ((48 \<le> c \<and> c \<le> 57) \<or> (65 \<le> c \<and> c \<le> 70) \<or> (97 \<le> c \<and> c \<le> 102))"

definition hex12 :: "pystr \<Rightarrow> bool" where
  "hex12 s = (length s = 12 \<and> (\<forall>c \<in> set s. hexdigit c))"

fun hex_pairs :: "pystr \<Rightarrow> bytes" where
  "hex_pairs (c # d # cs) =
     (case (digit_value c, digit_value d) of
        (Some hi, Some lo) \<Rightarrow> (hi * 16 + lo) # hex_pairs cs
      | _ \<Rightarrow> [])"
| "hex_pairs _ = []"

definition key_string :: "(pystr \<times> json) list \<Rightarrow> pystr \<Rightarrow> nat \<Rightarrow> json option" where
  "key_string sk field sector =
     (case map_of sk (str_of_nat sector) of
        Some (JObj entry) \<Rightarrow> map_of entry field
      | _ \<Rightarrow> None)"

definition wf_key :: "(pystr \<times> json) list \<Rightarrow> pystr \<Rightarrow> nat \<Rightarrow> bool" where
  "wf_key sk field sector =
     ((case map_of sk (str_of_nat sector) of None \<Rightarrow> True | Some (JObj entry) \<Rightarrow> True | Some _ \<Rightarrow> False) \<and>
      (case key_string sk field sector of None \<Rightarrow> True | Some (JStr s) \<Rightarrow> hex12 s | Some _ \<Rightarrow> False))"

definition wf_sector_keys :: "(pystr \<times> json) list \<Rightarrow> bool" where
  "wf_sector_keys sk =
     (\<forall>sector \<in> set [0..<16]. wf_key sk (py ''KeyA'') sector \<and> wf_key sk (py ''KeyB'') sector)"

definition slot :: "(pystr \<times> json) list \<Rightarrow> pystr \<Rightarrow> nat \<Rightarrow> bytes" where
  "slot sk field sector =
     (case key_string sk field sector of
        Some (JStr s) \<Rightarrow> hex_pairs s
      | _ \<Rightarrow> replicate 6 255)"

definition layout :: "(pystr \<times> json) list \<Rightarrow> bytes" where
  "layout sk = concat (map (slot sk (py ''KeyA'')) [0..<16]) @ concat (map (slot sk (py ''KeyB'')) [0..<16])"





text \<open>
  For the report: the path components that count (all but \<open>.\<close> and \<open>..\<close>) and the colour
  as the report shows it, the translation before the English name when there is one.
\<close>

definition color_display :: "pystr \<Rightarrow> pystr" where
  "color_display color =
     (if translate_color color \<noteq> color then translate_color color @ py ''/'' @ color else color)"

definition relevant :: "pystr list \<Rightarrow> pystr list" where
  "relevant path_parts = filter (\<lambda>part. part \<noteq> py ''.'' \<and> part \<noteq> py ''..'') path_parts"

text \<open>A path none of whose components is the tooling directory \<open>scripts\<close>.\<close>

definition no_scripts :: "path \<Rightarrow> bool" where
  "no_scripts p = (py ''scripts'' \<notin> set (parts p))"

text \<open>
  Two trees related directory by directory: the same names of subdirectories in the same
  order, and file listings related by \<open>F\<close>. With the trivial relation the trees have the
  same shape.
\<close>

inductive tree_rel ::
  "((pystr \<times> bytes) list \<Rightarrow> (pystr \<times> bytes) list \<Rightarrow> bool) \<Rightarrow> dir \<Rightarrow> dir \<Rightarrow> bool"
  for F where
  "F fs fs' \<Longrightarrow> map fst subs = map fst subs' \<Longrightarrow>
   list_all2 (tree_rel F) (map snd subs) (map snd subs') \<Longrightarrow>
   tree_rel F (Dir fs subs) (Dir fs' subs')"

definition same_shape :: "dir \<Rightarrow> dir \<Rightarrow> bool" where
  "same_shape = tree_rel (\<lambda>fs fs'. True)"





section \<open>Example inputs\<close>

definition doc3 :: "(pystr \<times> json) list" where
  "doc3 = [(py ''Card'', JObj [(py ''UID'', JStr (py ''04112233445566''))]),
           (py ''SectorKeys'', JObj [(py ''3'', JObj [(py ''KeyA'', JStr (py ''AABBCCDDEEFF''))])])]"

definition tree3 :: dir where
  "tree3 = Dir [] [(py ''PLA'', Dir [] [(py ''AABBCCDD'', Dir [(py ''hf-mf-dump.json'', [123, 125])] [])])]"

definition doc_no_sk :: "(pystr \<times> json) list" where
  "doc_no_sk = [(py ''Card'', JObj [(py ''UID'', JStr (py ''04112233445566''))])]"

definition doc_empty_sk :: "(pystr \<times> json) list" where
  "doc_empty_sk = [(py ''Card'', JObj [(py ''UID'', JStr (py ''04112233445566''))]),
                   (py ''SectorKeys'', JObj [])]"



definition doc_bad_key :: "(pystr \<times> json) list" where
  "doc_bad_key = [(py ''Card'', JObj [(py ''UID'', JStr (py ''04112233445566''))]),
                    (py ''SectorKeys'', JObj [(py ''7'', JObj [(py ''KeyB'', JStr (py ''AABBCCDDEEFG''))])])]"







definition tree_scripts :: dir where
  "tree_scripts = Dir []
     [(py ''scripts'', Dir [(py ''parse.py'', [])]
        [(py ''AABBCCDD'', Dir [(py ''hf-mf-AABBCCDD-dump.json'', [1]), (py ''hf-mf-AABBCCDD-dump.bin'', [0])] [])]),
      (py ''PLA'', Dir []
        [(py ''scripts'', Dir []
           [(py ''11111111'', Dir [(py ''hf-mf-11111111-dump.json'', [1]), (py ''hf-mf-11111111-dump.bin'', [0])] [])]),
         (py ''aAbB09fF'', Dir [(py ''hf-mf-AABB09FF-dump.json'', [1]), (py ''hf-mf-AABB09FF-dump.bin'', [0])] []),
         (py ''ABCDEFG1'', Dir [(py ''hf-mf-ABCDEFG1-dump.json'', [1]), (py ''hf-mf-ABCDEFG1-dump.bin'', [0])] []),
         (py ''ABCDEF1'', Dir [(py ''hf-mf-ABCDEF1-dump.json'', [1]), (py ''hf-mf-ABCDEF1-dump.bin'', [0])] [])])]"

definition no_fault :: fault where
  "no_fault p content = None"

definition disk_full :: fault where
  "disk_full p content = Some (OSError, 0)"


definition short_write :: fault where
  "short_write p content = Some (OSError, 20)"


section \<open>Properties\<close>

subsection \<open>Decoding and the layout\<close>

lemma digit_value_hexdigit: "(digit_value c \<noteq> None) = hexdigit c"
  by (auto simp: digit_value_def hexdigit_def)

lemma hexdigit_not_space: "hexdigit c \<Longrightarrow> \<not> isspace c"
  by (auto simp: hexdigit_def isspace_def)

lemma fromhex_hex_pairs:
  "\<forall>c \<in> set s. hexdigit c \<Longrightarrow> even (length s) \<Longrightarrow> fromhex s = Inr (hex_pairs s)"
proof (induction s rule: fromhex.induct)
  case 1
  show ?case by simp
next
  case (2 c)
  then show ?case by simp
next
  case (3 c d cs)
  from "3.prems" have hc: "hexdigit c" and hd: "hexdigit d" and rest: "\<forall>c \<in> set cs. hexdigit c"
    and ev: "even (length cs)"
    by simp_all
  from hc obtain hi where hi: "digit_value c = Some hi"
    using digit_value_hexdigit [of c] by auto
  from hd obtain lo where lo: "digit_value d = Some lo"
    using digit_value_hexdigit [of d] by auto
  have "fromhex cs = Inr (hex_pairs cs)"
    using "3.IH"(2) [OF _ _ hi lo rest ev] hc hexdigit_not_space hi lo by auto
  then show ?case
    using hc hexdigit_not_space hi lo by simp
qed

lemma length_hex_pairs:
  "\<forall>c \<in> set s. hexdigit c \<Longrightarrow> length (hex_pairs s) = length s div 2"
proof (induction s rule: hex_pairs.induct)
  case (1 c d cs)
  then obtain hi lo where "digit_value c = Some hi" "digit_value d = Some lo"
    using digit_value_hexdigit [of c] digit_value_hexdigit [of d] by auto
  with 1 show ?case by simp
qed simp_all

lemma fromhex_default: "fromhex (py ''FFFFFFFFFFFF'') = Inr (replicate 6 255)"
  by code_simp

lemma length_slot: "wf_key sk field sector \<Longrightarrow> length (slot sk field sector) = 6"
  by (auto simp: wf_key_def slot_def hex12_def length_hex_pairs split: option.splits json.splits)

lemma collect_keys_step_gen:
  assumes "bytes_fromhex dflt = Inr (replicate 6 255)" and "wf_key sk field sector"
  shows "and_then (dict_get (JObj sk) (str_of_nat sector) (JObj [])) (\<lambda>entry.
         and_then (dict_get entry field dflt) (\<lambda>key_hex.
         and_then (bytes_fromhex key_hex) k)) = k (slot sk field sector)"
  using assms
  by (auto simp: wf_key_def slot_def key_string_def and_then_def hex12_def fromhex_hex_pairs
        split: option.splits json.splits)

lemma collect_keys_step:
  assumes "wf_key sk field sector"
  shows "and_then (dict_get (JObj sk) (str_of_nat sector) (JObj [])) (\<lambda>entry.
         and_then (dict_get entry field (JStr (py ''FFFFFFFFFFFF''))) (\<lambda>key_hex.
         and_then (bytes_fromhex key_hex) k)) = k (slot sk field sector)"
proof -
  have "bytes_fromhex (JStr (py ''FFFFFFFFFFFF'')) = Inr (replicate 6 255)"
    by code_simp
  then show ?thesis
    using assms by (rule collect_keys_step_gen)
qed

lemma collect_keys_layout:
  "\<forall>sector \<in> set sectors. wf_key sk field sector \<Longrightarrow>
   collect_keys (JObj sk) field sectors acc = Inr (acc @ concat (map (slot sk field) sectors))"
proof (induction sectors arbitrary: acc)
  case Nil
  show ?case by simp
next
  case (Cons sector rest)
  then have wf: "wf_key sk field sector" and "\<forall>s \<in> set rest. wf_key sk field s"
    by simp_all
  then have "collect_keys (JObj sk) field rest (acc @ slot sk field sector) =
             Inr ((acc @ slot sk field sector) @ concat (map (slot sk field) rest))"
    using Cons.IH by blast
  moreover have "collect_keys (JObj sk) field (sector # rest) acc =
                 collect_keys (JObj sk) field rest (acc @ slot sk field sector)"
    by (simp only: collect_keys.simps collect_keys_step [OF wf])
  ultimately show ?case by simp
qed

lemma concat_slots:
  "\<forall>x \<in> set xs. length (g x) = k \<Longrightarrow> i < length xs \<Longrightarrow>
   take k (drop (k * i) (concat (map g xs))) = g (xs ! i)"
proof (induction xs arbitrary: i)
  case Nil
  then show ?case by simp
next
  case (Cons x xs)
  show ?case
  proof (cases i)
    case 0
    with Cons.prems show ?thesis by simp
  next
    case (Suc j)
    with Cons.prems have "take k (drop (k * j) (concat (map g xs))) = g (xs ! j)"
      using Cons.IH [of j] by simp
    moreover have "length (g x) = k" using Cons.prems by simp
    ultimately show ?thesis using Suc by simp
  qed
qed

lemma length_concat_slots:
  "\<forall>x \<in> set xs. length (g x) = k \<Longrightarrow> length (concat (map g xs)) = k * length xs"
  by (induction xs) simp_all

lemma build_key_bytes_layout:
  assumes "map_of doc (py ''Card'') = Some (JObj crd)"
    and "map_of crd (py ''UID'') = Some uid"
    and "map_of doc (py ''SectorKeys'') = Some (JObj sk)"
    and "wf_sector_keys sk"
  shows "build_key_bytes (JObj doc) = Inr (uid, layout sk)"
proof -
  have a: "collect_keys (JObj sk) (py ''KeyA'') [0..<16] [] =
           Inr ([] @ concat (map (slot sk (py ''KeyA'')) [0..<16]))"
    using assms(4) unfolding wf_sector_keys_def by (intro collect_keys_layout) blast
  have b: "collect_keys (JObj sk) (py ''KeyB'') [0..<16] (concat (map (slot sk (py ''KeyA'')) [0..<16])) =
           Inr (layout sk)"
    unfolding layout_def using assms(4) unfolding wf_sector_keys_def
    by (intro collect_keys_layout) blast
  show ?thesis
    unfolding build_key_bytes_def
    using assms(1-3) a b by (simp add: and_then_def)
qed

lemma layout_slots:
  assumes "wf_sector_keys sk"
  shows "length (layout sk) = 192"
    and "n < 16 \<Longrightarrow> take 6 (drop (6 * n) (layout sk)) = slot sk (py ''KeyA'') n"
    and "n < 16 \<Longrightarrow> take 6 (drop (96 + 6 * n) (layout sk)) = slot sk (py ''KeyB'') n"
proof -
  let ?A = "concat (map (slot sk (py ''KeyA'')) [0..<16])"
  let ?B = "concat (map (slot sk (py ''KeyB'')) [0..<16])"
  have la: "\<forall>x \<in> set [0..<16]. length (slot sk (py ''KeyA'') x) = 6"
    using assms length_slot unfolding wf_sector_keys_def by blast
  have lb: "\<forall>x \<in> set [0..<16]. length (slot sk (py ''KeyB'') x) = 6"
    using assms length_slot unfolding wf_sector_keys_def by blast
  have lenA: "length ?A = 96"
    using length_concat_slots [OF la] by simp
  have lenB: "length ?B = 96"
    using length_concat_slots [OF lb] by simp
  show "length (layout sk) = 192"
    unfolding layout_def using lenA lenB by simp
  {
    assume n: "n < 16"
    have "take 6 (drop (6 * n) ?A) = slot sk (py ''KeyA'') ([0..<16] ! n)"
      using concat_slots [OF la, of n] n by simp
    moreover have "6 * n + 6 \<le> length ?A" using n lenA by simp
    ultimately show "take 6 (drop (6 * n) (layout sk)) = slot sk (py ''KeyA'') n"
      unfolding layout_def using n by (simp del: upt_Suc upt_rec_numeral add: nth_upt)
  }
  {
    assume n: "n < 16"
    have "take 6 (drop (6 * n) ?B) = slot sk (py ''KeyB'') ([0..<16] ! n)"
      using concat_slots [OF lb, of n] n by simp
    then show "take 6 (drop (96 + 6 * n) (layout sk)) = slot sk (py ''KeyB'') n"
      unfolding layout_def using n lenA by (simp del: upt_Suc upt_rec_numeral add: nth_upt)
  }
qed

subsection \<open>The file system\<close>

lemma map_of_map_entry:
  "map_of (map (\<lambda>(m, d). if m = n then (m, g d) else (m, d)) subs) n = map_option g (map_of subs n)"
  by (induction subs) auto

lemma map_of_map_other:
  "k \<noteq> n \<Longrightarrow> map_of (map (\<lambda>(m, d). if m = n then (m, g d) else (m, d)) subs) k = map_of subs k"
  by (induction subs) auto

lemma lookup_modify_dir:
  "lookup_dir (modify_dir p f t) p = map_option f (lookup_dir t p)"
proof (induction p arbitrary: t)
  case Nil
  show ?case by simp
next
  case (Cons n p)
  obtain fs subs where t: "t = Dir fs subs" by (cases t)
  show ?case
    by (cases "map_of subs n") (simp_all add: t map_of_map_entry Cons.IH)
qed

lemma map_of_put_file: "map_of (put_file n content fs) n = Some content"
  by (induction fs) auto

lemma map_of_put_file_other: "k \<noteq> n \<Longrightarrow> map_of (put_file n content fs) k = map_of fs k"
  by (induction fs) auto

lemma tree_rel_Dir:
  "tree_rel F (Dir fs subs) (Dir fs' subs') \<longleftrightarrow>
   F fs fs' \<and> map fst subs = map fst subs' \<and> list_all2 (tree_rel F) (map snd subs) (map snd subs')"
  by (auto elim: tree_rel.cases intro: tree_rel.intros)

lemma tree_rel_refl: "(\<And>fs. F fs fs) \<Longrightarrow> tree_rel F t t"
proof (induction t)
  case (Dir fs subs)
  have "list_all2 (tree_rel F) (map snd subs) (map snd subs)"
    using Dir by (auto simp: list_all2_same)
  then show ?case
    using Dir.prems by (simp add: tree_rel_Dir)
qed

lemma map_of_rel:
  "map fst subs = map fst subs' \<Longrightarrow> list_all2 R (map snd subs) (map snd subs') \<Longrightarrow>
   rel_option R (map_of subs n) (map_of subs' n)"
proof (induction subs arbitrary: subs')
  case Nil
  then show ?case by simp
next
  case (Cons x subs)
  then obtain y ys where s: "subs' = y # ys" by (cases subs') auto
  with Cons.prems have "fst x = fst y" "R (snd x) (snd y)" "map fst subs = map fst ys"
    "list_all2 R (map snd subs) (map snd ys)"
    by simp_all
  then show ?case
    using Cons.IH [of ys] by (cases x, cases y) (auto simp: s)
qed

lemma lookup_rel: "tree_rel F t t' \<Longrightarrow> rel_option (tree_rel F) (lookup_dir t p) (lookup_dir t' p)"
proof (induction p arbitrary: t t')
  case Nil
  then show ?case by simp
next
  case (Cons n p)
  obtain fs subs where t: "t = Dir fs subs" by (cases t)
  obtain fs' subs' where t': "t' = Dir fs' subs'" by (cases t')
  from Cons.prems have "map fst subs = map fst subs'"
    "list_all2 (tree_rel F) (map snd subs) (map snd subs')"
    by (simp_all add: t t' tree_rel_Dir)
  then have "rel_option (tree_rel F) (map_of subs n) (map_of subs' n)"
    by (rule map_of_rel)
  then show ?case
    using Cons.IH by (cases "map_of subs n"; cases "map_of subs' n") (auto simp: t t')
qed

lemma lookup_rel_None: "tree_rel F t t' \<Longrightarrow> (lookup_dir t' p = None) = (lookup_dir t p = None)"
  using lookup_rel [of F t t' p] by (cases "lookup_dir t p"; cases "lookup_dir t' p") auto


lemma tree_rel_subdirs: "tree_rel F d d' \<Longrightarrow> map fst (subdirs d) = map fst (subdirs d')"
  by (cases d; cases d') (simp add: tree_rel_Dir)

lemma walk_to_rel: "tree_rel F t t' \<Longrightarrow> walk_to t' cur cs = walk_to t cur cs"
proof (induction cs arbitrary: cur)
  case Nil
  show ?case by simp
next
  case (Cons c cs)
  from lookup_rel_None [OF Cons.prems, of "cur @ [c]"] Cons.IH [OF Cons.prems]
  show ?case
    by (cases "lookup_dir t (cur @ [c])"; cases "lookup_dir t' (cur @ [c])") auto
qed

lemma locate_rel: "tree_rel F t t' \<Longrightarrow> locate t' p = locate t p"
proof -
  assume r: "tree_rel F t t'"
  have "\<And>dp. (case lookup_dir t' (dp @ [last p]) of Some d \<Rightarrow> Inl OSError | None \<Rightarrow> Inr (dp, last p))
           = (case lookup_dir t (dp @ [last p]) of Some d \<Rightarrow> (Inl OSError :: exn + path \<times> pystr) | None \<Rightarrow> Inr (dp, last p))"
  proof -
    fix dp
    from lookup_rel_None [OF r, of "dp @ [last p]"]
    show "(case lookup_dir t' (dp @ [last p]) of Some d \<Rightarrow> Inl OSError | None \<Rightarrow> Inr (dp, last p))
           = (case lookup_dir t (dp @ [last p]) of Some d \<Rightarrow> (Inl OSError :: exn + path \<times> pystr) | None \<Rightarrow> Inr (dp, last p))"
      by (cases "lookup_dir t (dp @ [last p])"; cases "lookup_dir t' (dp @ [last p])") auto
  qed
  then show ?thesis
    unfolding locate_def walk_to_rel [OF r]
    by (cases "walk_to t [] (butlast p)") (simp_all add: and_then_def)
qed

lemma list_all2_map_entry:
  assumes "list_all2 R (map snd subs0) (map snd subs)"
    and "\<And>x d. R x d \<Longrightarrow> R x (g d)"
  shows "list_all2 R (map snd subs0)
           (map snd (map (\<lambda>(m, d). if m = n then (m, g d) else (m, d)) subs))"
  using assms(1)
proof (induction subs arbitrary: subs0)
  case Nil
  then show ?case by simp
next
  case (Cons e subs)
  then obtain x xs where s: "subs0 = x # xs" by (cases subs0) auto
  with Cons.prems have "R (snd x) (snd e)" "list_all2 R (map snd xs) (map snd subs)"
    by simp_all
  then show ?case
    using Cons.IH [of xs] assms(2) by (cases e) (auto simp: s)
qed

lemma map_fst_map_entry:
  "map fst (map (\<lambda>(m, d). if m = n then (m, g d) else (m, d)) subs) = map fst subs"
  by (induction subs) auto

lemma tree_rel_modify:
  assumes g: "\<And>d0 d. tree_rel F d0 d \<Longrightarrow> tree_rel F d0 (g d)"
  shows "tree_rel F t0 t \<Longrightarrow> tree_rel F t0 (modify_dir p g t)"
proof (induction p arbitrary: t0 t)
  case Nil
  then show ?case by (simp add: g)
next
  case (Cons n p)
  obtain fs0 subs0 where t0: "t0 = Dir fs0 subs0" by (cases t0)
  obtain fs subs where t: "t = Dir fs subs" by (cases t)
  from Cons.prems have f: "F fs0 fs" and m: "map fst subs0 = map fst subs"
    and l: "list_all2 (tree_rel F) (map snd subs0) (map snd subs)"
    by (simp_all add: t0 t tree_rel_Dir)
  have L: "list_all2 (tree_rel F) (map snd subs0)
           (map snd (map (\<lambda>(m, d). if m = n then (m, modify_dir p g d) else (m, d)) subs))"
    using l Cons.IH by (rule list_all2_map_entry)
  have mf: "map fst subs0 = map fst (map (\<lambda>(m, d). if m = n then (m, modify_dir p g d) else (m, d)) subs)"
    using m by (simp only: map_fst_map_entry)
  show ?case
    unfolding t0 t modify_dir.simps tree_rel_Dir using f mf L by blast
qed

lemma tree_rel_store:
  assumes "\<And>fs0 fs. F fs0 fs \<Longrightarrow> F fs0 (put_file f content fs)"
    and "tree_rel F t0 t"
  shows "tree_rel F t0 (store t dp f content)"
  unfolding store_def
proof (rule tree_rel_modify [OF _ assms(2)])
  fix d0 d assume "tree_rel F d0 d"
  then show "tree_rel F d0 (Dir (put_file f content (files d)) (subdirs d))"
    using assms(1) by (cases d0; cases d) (simp add: tree_rel_Dir)
qed

lemma same_shape_store: "same_shape t (store t dp f content)"
  unfolding same_shape_def by (rule tree_rel_store) (simp_all add: tree_rel_refl)

lemma lookup_prefix: "lookup_dir t (p @ q) \<noteq> None \<Longrightarrow> lookup_dir t p \<noteq> None"
proof (induction p arbitrary: t)
  case Nil
  then show ?case by simp
next
  case (Cons n p)
  obtain fs subs where t: "t = Dir fs subs" by (cases t)
  from Cons show ?case
    by (cases "map_of subs n") (auto simp: t)
qed

lemma walk_to_exists:
  "walk_to t cur cs = Inr dp \<Longrightarrow> lookup_dir t cur \<noteq> None \<Longrightarrow> lookup_dir t dp \<noteq> None"
proof (induction cs arbitrary: cur)
  case Nil
  then show ?case by simp
next
  case (Cons c cs)
  show ?case
  proof (cases "c = py ''..''")
    case True
    with Cons.prems have n: "cur \<noteq> []" and w: "walk_to t (butlast cur) cs = Inr dp"
      by (auto split: if_splits)
    from n have "cur = butlast cur @ [last cur]" by simp
    with Cons.prems(2) have "lookup_dir t (butlast cur) \<noteq> None"
      using lookup_prefix [of t "butlast cur" "[last cur]"] by simp
    with Cons.IH w show ?thesis by blast
  next
    case False
    with Cons.prems obtain d where "lookup_dir t (cur @ [c]) = Some d"
      and "walk_to t (cur @ [c]) cs = Inr dp"
      by (auto split: option.splits)
    with Cons.IH show ?thesis by auto
  qed
qed

lemma locate_exists: "locate t p = Inr (dp, f) \<Longrightarrow> lookup_dir t dp \<noteq> None"
  unfolding locate_def and_then_def
  using walk_to_exists [of t "[]" "butlast p" dp]
  by (auto split: if_splits sum.splits option.splits)

lemma read_store:
  assumes "locate t p = Inr (dp, f)"
  shows "read_path (store t dp f content) p = Inr content"
proof -
  have l: "locate (store t dp f content) p = Inr (dp, f)"
    using locate_rel [OF same_shape_store [unfolded same_shape_def], of t dp f content p] assms
    by simp
  from locate_exists [OF assms] obtain d where d: "lookup_dir t dp = Some d"
    by auto
  have "lookup_dir (store t dp f content) dp = Some (Dir (put_file f content (files d)) (subdirs d))"
    unfolding store_def by (simp add: lookup_modify_dir d)
  then show ?thesis
    unfolding read_path_def by (simp add: l and_then_def map_of_put_file)
qed

lemma read_after_write:
  "write_file fault t directory n content = (None, t') \<Longrightarrow> read_file t' directory n = Inr content"
proof -
  assume w: "write_file fault t directory n content = (None, t')"
  then obtain p dp f where j: "join_path directory n = Inr p" and l: "locate t p = Inr (dp, f)"
    and t': "t' = store t dp f content"
    unfolding write_file_def and_then_def
    by (auto split: sum.splits option.splits prod.splits)
  show ?thesis
    unfolding read_file_def using j read_store [OF l] by (simp add: and_then_def t')
qed

subsection \<open>C1: the layout of the synthesized blob\<close>

lemma generate_key_file_built:
  assumes "read_file t directory json_filename = Inr text"
    and "json_load text = Inr document"
    and "build_key_bytes document = Inr (uid, key_bytes)"
  shows "generate_key_file json_load repr fault t directory json_filename =
           (case write_file fault t directory (output_name repr uid) key_bytes of
              (Some e, t') \<Rightarrow> (Failed e, t')
            | (None, t') \<Rightarrow>
                (Generated (length key_bytes) (joined directory (output_name repr uid)), t'))"
  unfolding generate_key_file_def using assms by (simp add: and_then_def)

lemma key_blob_layout_aux:
  assumes "read_file t directory json_filename = Inr text"
    and "json_load text = Inr (JObj doc)"
    and "map_of doc (py ''Card'') = Some (JObj crd)"
    and "map_of crd (py ''UID'') = Some uid"
    and "map_of doc (py ''SectorKeys'') = Some (JObj sk)"
    and "wf_sector_keys sk"
  shows "generate_key_file json_load repr fault t directory json_filename =
           (case write_file fault t directory (output_name repr uid) (layout sk) of
              (Some e, t') \<Rightarrow> (Failed e, t')
            | (None, t') \<Rightarrow> (Generated 192 (joined directory (output_name repr uid)), t'))"
proof -
  have b: "build_key_bytes (JObj doc) = Inr (uid, layout sk)"
    using assms(3-6) by (rule build_key_bytes_layout)
  have len: "length (layout sk) = 192"
    using assms(6) by (rule layout_slots(1))
  show ?thesis
    using generate_key_file_built [where json_load = json_load and repr = repr and fault = fault,
        OF assms(1,2) b]
    by (simp only: len)
qed

text \<open>
  C1. For a key-dump document that has \<open>Card.UID\<close> and \<open>SectorKeys\<close>, in which every
  sector entry that is present is an object and every \<open>KeyA\<close>/\<open>KeyB\<close> value that is present is
  a 12-character hexadecimal string, \<open>generate_key_file\<close> builds the blob \<open>layout\<close>: 192
  bytes, the KeyA value of sector \<open>n\<close> at offset \<open>6 n\<close> and its KeyB value at offset
  \<open>96 + 6 n\<close>, six bytes \<open>FF\<close> where the entry or the field is missing. It hands that blob
  to the write of the file of the derived name; when the write raises nothing it returns
  success with the byte count 192, and the file then holds the blob.
\<close>

theorem key_blob_layout:
  assumes "read_file t directory json_filename = Inr text"
    and "json_load text = Inr (JObj doc)"
    and "map_of doc (py ''Card'') = Some (JObj crd)"
    and "map_of crd (py ''UID'') = Some uid"
    and "map_of doc (py ''SectorKeys'') = Some (JObj sk)"
    and "wf_sector_keys sk"
  shows "generate_key_file json_load repr fault t directory json_filename =
           (case write_file fault t directory (output_name repr uid) (layout sk) of
              (Some e, t') \<Rightarrow> (Failed e, t')
            | (None, t') \<Rightarrow> (Generated 192 (joined directory (output_name repr uid)), t'))
         \<and> (\<forall>t'. write_file fault t directory (output_name repr uid) (layout sk) = (None, t') \<longrightarrow>
                read_file t' directory (output_name repr uid) = Inr (layout sk))
         \<and> length (layout sk) = 192
         \<and> (\<forall>n < 16. take 6 (drop (6 * n) (layout sk)) = slot sk (py ''KeyA'') n
                   \<and> take 6 (drop (96 + 6 * n) (layout sk)) = slot sk (py ''KeyB'') n)"
proof -
  have len: "length (layout sk) = 192"
    using assms(6) by (rule layout_slots(1))
  have "generate_key_file json_load repr fault t directory json_filename =
           (case write_file fault t directory (output_name repr uid) (layout sk) of
              (Some e, t') \<Rightarrow> (Failed e, t')
            | (None, t') \<Rightarrow> (Generated 192 (joined directory (output_name repr uid)), t'))"
    using assms by (rule key_blob_layout_aux)
  moreover have "\<forall>t'. write_file fault t directory (output_name repr uid) (layout sk) = (None, t') \<longrightarrow>
                read_file t' directory (output_name repr uid) = Inr (layout sk)"
    using read_after_write by blast
  moreover have "\<forall>n < 16. take 6 (drop (6 * n) (layout sk)) = slot sk (py ''KeyA'') n
                   \<and> take 6 (drop (96 + 6 * n) (layout sk)) = slot sk (py ''KeyB'') n"
    using layout_slots(2,3) [OF assms(6)] by blast
  ultimately show ?thesis
    using len by blast
qed

theorem key_blob_layout_witness:
  "read_file tree3 [py ''PLA'', py ''AABBCCDD''] (py ''hf-mf-dump.json'') = Inr [123, 125]
   \<and> map_of doc3 (py ''Card'') = Some (JObj [(py ''UID'', JStr (py ''04112233445566''))])
   \<and> map_of doc3 (py ''SectorKeys'') = Some (JObj [(py ''3'', JObj [(py ''KeyA'', JStr (py ''AABBCCDDEEFF''))])])
   \<and> wf_sector_keys [(py ''3'', JObj [(py ''KeyA'', JStr (py ''AABBCCDDEEFF''))])]
   \<and> layout [(py ''3'', JObj [(py ''KeyA'', JStr (py ''AABBCCDDEEFF''))])]
       = replicate 18 255 @ [170, 187, 204, 221, 238, 255] @ replicate 168 255
   \<and> generate_key_file (\<lambda>text. Inr (JObj doc3)) (\<lambda>v. []) (\<lambda>p content. None) tree3
        [py ''PLA'', py ''AABBCCDD''] (py ''hf-mf-dump.json'')
       = (Generated 192 [py ''PLA'', py ''AABBCCDD'', py ''hf-mf-04112233445566-key.bin''],
          Dir [] [(py ''PLA'', Dir [] [(py ''AABBCCDD'',
            Dir [(py ''hf-mf-dump.json'', [123, 125]),
                 (py ''hf-mf-04112233445566-key.bin'',
                  replicate 18 255 @ [170, 187, 204, 221, 238, 255] @ replicate 168 255)] [])])])"
proof -
  let ?sk = "[(py ''3'', JObj [(py ''KeyA'', JStr (py ''AABBCCDDEEFF''))])]"
  let ?d = "[py ''PLA'', py ''AABBCCDD'']"
  let ?blob = "replicate 18 255 @ [170, 187, 204, 221, 238, 255] @ replicate 168 (255 :: nat)"
  let ?t = "Dir [] [(py ''PLA'', Dir [] [(py ''AABBCCDD'',
            Dir [(py ''hf-mf-dump.json'', [123, 125]),
                 (py ''hf-mf-04112233445566-key.bin'', ?blob)] [])])]"
  have h1: "read_file tree3 ?d (py ''hf-mf-dump.json'') = Inr [123, 125]"
    by code_simp
  have h2: "(\<lambda>text :: bytes. (Inr (JObj doc3) :: exn + json)) [123, 125] = Inr (JObj doc3)"
    by simp
  have h3: "map_of doc3 (py ''Card'') = Some (JObj [(py ''UID'', JStr (py ''04112233445566''))])"
    by code_simp
  have h4: "map_of [(py ''UID'', JStr (py ''04112233445566''))] (py ''UID'') = Some (JStr (py ''04112233445566''))"
    by code_simp
  have h5: "map_of doc3 (py ''SectorKeys'') = Some (JObj ?sk)"
    by code_simp
  have h6: "wf_sector_keys ?sk"
    by code_simp
  have l: "layout ?sk = ?blob"
    by code_simp
  have n: "output_name (\<lambda>v. []) (JStr (py ''04112233445566'')) = py ''hf-mf-04112233445566-key.bin''"
    by code_simp
  have j: "joined ?d (py ''hf-mf-04112233445566-key.bin'')
           = [py ''PLA'', py ''AABBCCDD'', py ''hf-mf-04112233445566-key.bin'']"
    by code_simp
  have w1: "fst (write_file (\<lambda>p content. None) tree3 ?d (py ''hf-mf-04112233445566-key.bin'') ?blob) = None"
    by code_simp
  have w2: "snd (write_file (\<lambda>p content. None) tree3 ?d (py ''hf-mf-04112233445566-key.bin'') ?blob) = ?t"
    by code_simp
  have w: "write_file (\<lambda>p content. None) tree3 ?d (py ''hf-mf-04112233445566-key.bin'') ?blob = (None, ?t)"
    using w1 w2 by (metis prod.collapse)
  from key_blob_layout [where json_load = "\<lambda>text. Inr (JObj doc3)" and repr = "\<lambda>v. []"
      and fault = "\<lambda>p content. None", OF h1 h2 h3 h4 h5 h6]
  have "generate_key_file (\<lambda>text. Inr (JObj doc3)) (\<lambda>v. []) (\<lambda>p content. None) tree3 ?d (py ''hf-mf-dump.json'') =
           (case write_file (\<lambda>p content. None) tree3 ?d (output_name (\<lambda>v. []) (JStr (py ''04112233445566''))) (layout ?sk) of
              (Some e, t') \<Rightarrow> (Failed e, t')
            | (None, t') \<Rightarrow> (Generated 192 (joined ?d (output_name (\<lambda>v. []) (JStr (py ''04112233445566'')))), t'))"
    by blast
  then have g: "generate_key_file (\<lambda>text. Inr (JObj doc3)) (\<lambda>v. []) (\<lambda>p content. None) tree3 ?d (py ''hf-mf-dump.json'')
       = (Generated 192 [py ''PLA'', py ''AABBCCDD'', py ''hf-mf-04112233445566-key.bin''], ?t)"
    unfolding n l w j by simp
  show ?thesis
    using h1 h3 h5 h6 l g by blast
qed

subsection \<open>C2: a document without \<open>SectorKeys\<close>\<close>

lemma layout_empty: "layout [] = replicate 192 255"
  by code_simp

lemma wf_empty: "wf_sector_keys []"
  by code_simp

text \<open>
  C2, as stated, fails: the code reads \<open>data['SectorKeys']\<close> by subscript, so a document
  with \<open>Card.UID\<close> and no \<open>SectorKeys\<close> key ends in \<open>KeyError\<close> and nothing is written.
\<close>

theorem missing_sector_keys_counterexample:
  "generate_key_file (\<lambda>text. Inr (JObj doc_no_sk)) (\<lambda>v. []) no_fault tree3 [py ''PLA'', py ''AABBCCDD'']
     (py ''hf-mf-dump.json'') = (Failed KeyError, tree3)"
  by code_simp

text \<open>
  C2, amended. For a document with \<open>Card.UID\<close>: without the \<open>SectorKeys\<close> key synthesis
  fails with \<open>KeyError\<close> and leaves the file system as it was; with an empty \<open>SectorKeys\<close>
  object every slot takes the default: the blob handed to the write of the file named
  after the document's UID is 192 bytes \<open>FF\<close>, and when the write raises nothing the call
  returns success with the byte count 192 and the file holds those bytes.
\<close>

theorem missing_sector_keys_fails:
  assumes "read_file t directory json_filename = Inr text"
    and "json_load text = Inr (JObj doc)"
    and "map_of doc (py ''Card'') = Some (JObj crd)"
    and "map_of crd (py ''UID'') = Some uid"
  shows "(map_of doc (py ''SectorKeys'') = None \<longrightarrow>
            generate_key_file json_load repr fault t directory json_filename = (Failed KeyError, t))
       \<and> (map_of doc (py ''SectorKeys'') = Some (JObj []) \<longrightarrow>
            generate_key_file json_load repr fault t directory json_filename =
               (case write_file fault t directory (output_name repr uid) (replicate 192 255) of
                  (Some e, t') \<Rightarrow> (Failed e, t')
                | (None, t') \<Rightarrow> (Generated 192 (joined directory (output_name repr uid)), t'))
            \<and> (\<forall>t'. write_file fault t directory (output_name repr uid) (replicate 192 255) = (None, t')
                  \<longrightarrow> read_file t' directory (output_name repr uid) = Inr (replicate 192 255)))"
proof -
  have a: "map_of doc (py ''SectorKeys'') = None \<Longrightarrow>
            generate_key_file json_load repr fault t directory json_filename = (Failed KeyError, t)"
    unfolding generate_key_file_def build_key_bytes_def
    using assms by (simp add: and_then_def)
  have b: "generate_key_file json_load repr fault t directory json_filename =
               (case write_file fault t directory (output_name repr uid) (replicate 192 255) of
                  (Some e, t') \<Rightarrow> (Failed e, t')
                | (None, t') \<Rightarrow> (Generated 192 (joined directory (output_name repr uid)), t'))"
    if "map_of doc (py ''SectorKeys'') = Some (JObj [])"
    using key_blob_layout_aux [where json_load = json_load and repr = repr and fault = fault,
        OF assms that wf_empty]
    by (simp only: layout_empty)
  have c: "\<forall>t'. write_file fault t directory (output_name repr uid) (replicate 192 255) = (None, t')
                  \<longrightarrow> read_file t' directory (output_name repr uid) = Inr (replicate 192 255)"
    using read_after_write by blast
  from a b c show ?thesis by blast
qed

theorem missing_sector_keys_fails_witness:
  "read_file tree3 [py ''PLA'', py ''AABBCCDD''] (py ''hf-mf-dump.json'') = Inr [123, 125]
   \<and> map_of doc_no_sk (py ''Card'') = Some (JObj [(py ''UID'', JStr (py ''04112233445566''))])
   \<and> map_of doc_no_sk (py ''SectorKeys'') = None
   \<and> generate_key_file (\<lambda>text. Inr (JObj doc_no_sk)) (\<lambda>v. []) no_fault tree3 [py ''PLA'', py ''AABBCCDD'']
        (py ''hf-mf-dump.json'') = (Failed KeyError, tree3)
   \<and> map_of doc_empty_sk (py ''Card'') = Some (JObj [(py ''UID'', JStr (py ''04112233445566''))])
   \<and> map_of doc_empty_sk (py ''SectorKeys'') = Some (JObj [])
   \<and> generate_key_file (\<lambda>text. Inr (JObj doc_empty_sk)) (\<lambda>v. []) no_fault tree3 [py ''PLA'', py ''AABBCCDD'']
        (py ''hf-mf-dump.json'')
       = (Generated 192 [py ''PLA'', py ''AABBCCDD'', py ''hf-mf-04112233445566-key.bin''],
          Dir [] [(py ''PLA'', Dir [] [(py ''AABBCCDD'',
            Dir [(py ''hf-mf-dump.json'', [123, 125]),
                 (py ''hf-mf-04112233445566-key.bin'', replicate 192 255)] [])])])"
proof -
  let ?d = "[py ''PLA'', py ''AABBCCDD'']"
  let ?j = "py ''hf-mf-dump.json''"
  let ?u = "JStr (py ''04112233445566'')"
  let ?t = "Dir [] [(py ''PLA'', Dir [] [(py ''AABBCCDD'',
            Dir [(py ''hf-mf-dump.json'', [123, 125]),
                 (py ''hf-mf-04112233445566-key.bin'', replicate 192 255)] [])])]"
  have h1: "read_file tree3 ?d ?j = Inr [123, 125]"
    by code_simp
  have a2: "(\<lambda>text :: bytes. (Inr (JObj doc_no_sk) :: exn + json)) [123, 125] = Inr (JObj doc_no_sk)"
    by simp
  have a3: "map_of doc_no_sk (py ''Card'') = Some (JObj [(py ''UID'', ?u)])"
    by code_simp
  have u: "map_of [(py ''UID'', ?u)] (py ''UID'') = Some ?u"
    by code_simp
  have a4: "map_of doc_no_sk (py ''SectorKeys'') = None"
    by code_simp
  have b2: "(\<lambda>text :: bytes. (Inr (JObj doc_empty_sk) :: exn + json)) [123, 125] = Inr (JObj doc_empty_sk)"
    by simp
  have b3: "map_of doc_empty_sk (py ''Card'') = Some (JObj [(py ''UID'', ?u)])"
    by code_simp
  have b4: "map_of doc_empty_sk (py ''SectorKeys'') = Some (JObj [])"
    by code_simp
  from missing_sector_keys_fails [where json_load = "\<lambda>text. Inr (JObj doc_no_sk)" and repr = "\<lambda>v. []"
      and fault = no_fault, OF h1 a2 a3 u] a4
  have a: "generate_key_file (\<lambda>text. Inr (JObj doc_no_sk)) (\<lambda>v. []) no_fault tree3 ?d ?j = (Failed KeyError, tree3)"
    by blast
  from missing_sector_keys_fails [where json_load = "\<lambda>text. Inr (JObj doc_empty_sk)" and repr = "\<lambda>v. []"
      and fault = no_fault, OF h1 b2 b3 u] b4
  have g: "generate_key_file (\<lambda>text. Inr (JObj doc_empty_sk)) (\<lambda>v. []) no_fault tree3 ?d ?j =
               (case write_file no_fault tree3 ?d (output_name (\<lambda>v. []) ?u) (replicate 192 255) of
                  (Some e, t') \<Rightarrow> (Failed e, t')
                | (None, t') \<Rightarrow> (Generated 192 (joined ?d (output_name (\<lambda>v. []) ?u)), t'))"
    by blast
  have n: "output_name (\<lambda>v. []) ?u = py ''hf-mf-04112233445566-key.bin''"
    by code_simp
  have j: "joined ?d (py ''hf-mf-04112233445566-key.bin'')
           = [py ''PLA'', py ''AABBCCDD'', py ''hf-mf-04112233445566-key.bin'']"
    by code_simp
  have w1: "fst (write_file no_fault tree3 ?d (py ''hf-mf-04112233445566-key.bin'') (replicate 192 255)) = None"
    by code_simp
  have w2: "snd (write_file no_fault tree3 ?d (py ''hf-mf-04112233445566-key.bin'') (replicate 192 255)) = ?t"
    by code_simp
  have w: "write_file no_fault tree3 ?d (py ''hf-mf-04112233445566-key.bin'') (replicate 192 255) = (None, ?t)"
    using w1 w2 by (metis prod.collapse)
  have b: "generate_key_file (\<lambda>text. Inr (JObj doc_empty_sk)) (\<lambda>v. []) no_fault tree3 ?d ?j
           = (Generated 192 [py ''PLA'', py ''AABBCCDD'', py ''hf-mf-04112233445566-key.bin''], ?t)"
    using g unfolding n w j by simp
  from h1 a3 a4 a b3 b4 b show ?thesis
    by blast
qed

subsection \<open>C3: malformed key strings\<close>













subsection \<open>C4: a document without \<open>Card.UID\<close>\<close>





subsection \<open>C10: what a failure of \<open>generate_key_file\<close> leaves behind\<close>

lemma write_file_refused:
  "and_then (join_path directory n) (locate t) = Inl e \<Longrightarrow>
   write_file fault t directory n content = (Some e, t)"
  unfolding write_file_def by simp

lemma write_file_opened:
  assumes "and_then (join_path directory n) (locate t) = Inr (dp, f)"
  shows "write_file fault t directory n content =
           (case fault (dp @ [f]) content of
              None \<Rightarrow> (None, store t dp f content)
            | Some (e, k) \<Rightarrow> (Some e, store t dp f (take k content)))"
  unfolding write_file_def using assms by simp

lemma read_after_open:
  assumes "and_then (join_path directory n) (locate t) = Inr (dp, f)"
  shows "read_file (store t dp f content) directory n = Inr content"
proof -
  from assms obtain p where j: "join_path directory n = Inr p" and l: "locate t p = Inr (dp, f)"
    unfolding and_then_def by (auto split: sum.splits)
  show ?thesis
    unfolding read_file_def using j read_store [OF l] by (simp add: and_then_def)
qed

lemma write_file_changed:
  assumes "write_file fault t directory n content = (x, t')" and "t' \<noteq> t"
  shows "\<exists>k. read_file t' directory n = Inr (take k content)"
proof (cases "and_then (join_path directory n) (locate t)")
  case (Inl e)
  from write_file_refused [OF this, of fault content] assms show ?thesis
    by simp
next
  case (Inr place)
  obtain dp f where place: "place = (dp, f)"
    by (cases place)
  note o = Inr [unfolded place]
  show ?thesis
  proof (cases "fault (dp @ [f]) content")
    case None
    with write_file_opened [OF o, of fault content] assms(1)
    have "t' = store t dp f (take (length content) content)"
      by simp
    with read_after_open [OF o, of "take (length content) content"] show ?thesis
      by blast
  next
    case (Some ek)
    obtain e k where "ek = (e, k)"
      by (cases ek)
    with Some write_file_opened [OF o, of fault content] assms(1)
    have "t' = store t dp f (take k content)"
      by simp
    with read_after_open [OF o, of "take k content"] show ?thesis
      by blast
  qed
qed

lemma generate_key_file_changed:
  assumes "generate_key_file json_load repr fault t directory json_filename = (r, t')"
    and "t' \<noteq> t"
  shows "\<exists>text document uid key_bytes k.
            read_file t directory json_filename = Inr text
          \<and> json_load text = Inr document
          \<and> build_key_bytes document = Inr (uid, key_bytes)
          \<and> read_file t' directory (output_name repr uid) = Inr (take k key_bytes)"
proof (cases "read_file t directory json_filename")
  case (Inl e)
  with assms show ?thesis
    unfolding generate_key_file_def by (simp add: and_then_def)
next
  case rd: (Inr raw)
  show ?thesis
  proof (cases "json_load raw")
    case (Inl e)
    with rd assms show ?thesis
      unfolding generate_key_file_def by (simp add: and_then_def)
  next
    case ld: (Inr doc)
    show ?thesis
    proof (cases "build_key_bytes doc")
      case (Inl e)
      with rd ld assms show ?thesis
        unfolding generate_key_file_def by (simp add: and_then_def)
    next
      case (Inr built)
      obtain uid key_bytes where built: "built = (uid, key_bytes)"
        by (cases built)
      note b = Inr [unfolded built]
      obtain x t'' where w: "write_file fault t directory (output_name repr uid) key_bytes = (x, t'')"
        by (cases "write_file fault t directory (output_name repr uid) key_bytes")
      have "t'' = t'"
        using generate_key_file_built [where json_load = json_load and repr = repr and fault = fault, OF rd ld b] assms(1) w
        by (cases x) simp_all
      with w assms(2) write_file_changed [of fault t directory "output_name repr uid" key_bytes x t']
      obtain k where "read_file t' directory (output_name repr uid) = Inr (take k key_bytes)"
        by blast
      with rd ld b show ?thesis
        by blast
    qed
  qed
qed

lemma generate_key_file_generated:
  assumes "generate_key_file json_load repr fault t directory json_filename = (Generated n p, t')"
  shows "\<exists>text document uid key_bytes.
            read_file t directory json_filename = Inr text
          \<and> json_load text = Inr document
          \<and> build_key_bytes document = Inr (uid, key_bytes)
          \<and> n = length key_bytes
          \<and> p = joined directory (output_name repr uid)
          \<and> read_file t' directory (output_name repr uid) = Inr key_bytes"
proof (cases "read_file t directory json_filename")
  case (Inl e)
  with assms show ?thesis
    unfolding generate_key_file_def by (simp add: and_then_def)
next
  case rd: (Inr raw)
  show ?thesis
  proof (cases "json_load raw")
    case (Inl e)
    with rd assms show ?thesis
      unfolding generate_key_file_def by (simp add: and_then_def)
  next
    case ld: (Inr doc)
    show ?thesis
    proof (cases "build_key_bytes doc")
      case (Inl e)
      with rd ld assms show ?thesis
        unfolding generate_key_file_def by (simp add: and_then_def)
    next
      case (Inr built)
      obtain uid key_bytes where built: "built = (uid, key_bytes)"
        by (cases built)
      note b = Inr [unfolded built]
      obtain x t'' where w: "write_file fault t directory (output_name repr uid) key_bytes = (x, t'')"
        by (cases "write_file fault t directory (output_name repr uid) key_bytes")
      have g: "x = None \<and> t'' = t' \<and> n = length key_bytes \<and> p = joined directory (output_name repr uid)"
        using generate_key_file_built [where json_load = json_load and repr = repr and fault = fault, OF rd ld b] assms(1) w
        by (cases x) simp_all
      with w have "read_file t' directory (output_name repr uid) = Inr key_bytes"
        using read_after_write by blast
      with rd ld b g show ?thesis
        by blast
    qed
  qed
qed

text \<open>
  C10, as stated, fails: the file is created by \<open>open(output_path, 'wb')\<close> before
  \<open>f.write\<close> runs, and nothing removes it when the write raises. On a full disk the call
  returns failure and the directory, which held no key file before, holds an empty one.
\<close>

theorem failed_write_counterexample:
  "read_file tree3 [py ''PLA'', py ''AABBCCDD''] (py ''hf-mf-04112233445566-key.bin'') = Inl OSError
   \<and> generate_key_file (\<lambda>text. Inr (JObj doc3)) (\<lambda>v. []) disk_full tree3 [py ''PLA'', py ''AABBCCDD'']
        (py ''hf-mf-dump.json'')
      = (Failed OSError,
         Dir [] [(py ''PLA'', Dir [] [(py ''AABBCCDD'',
            Dir [(py ''hf-mf-dump.json'', [123, 125]),
                 (py ''hf-mf-04112233445566-key.bin'', [])] [])])])
   \<and> read_file (Dir [] [(py ''PLA'', Dir [] [(py ''AABBCCDD'',
            Dir [(py ''hf-mf-dump.json'', [123, 125]),
                 (py ''hf-mf-04112233445566-key.bin'', [])] [])])])
        [py ''PLA'', py ''AABBCCDD''] (py ''hf-mf-04112233445566-key.bin'') = Inr []"
  by code_simp

text \<open>
  C10, amended. Every exception of the body is returned as a failure. An exception of
  reading the document, of parsing it, of the two subscripts or of decoding a key, and a
  refusal of \<open>open\<close> for the output file, leave the file system as it was. The output file
  is opened only after the document has been read and all 32 keys decoded: then the call
  succeeds and the file holds the blob, or the write raises and the call fails with the
  file left behind, holding the part of the blob that was written. So whenever the call
  changes the file system, the change is the output file of a fully decoded document, and
  a success means that the file holds the whole blob.
\<close>

theorem generate_key_file_stages:
  "(\<forall>e. read_file t directory json_filename = Inl e \<longrightarrow>
        generate_key_file json_load repr fault t directory json_filename = (Failed e, t))
   \<and> (\<forall>text e. read_file t directory json_filename = Inr text \<and> json_load text = Inl e \<longrightarrow>
        generate_key_file json_load repr fault t directory json_filename = (Failed e, t))
   \<and> (\<forall>text document e. read_file t directory json_filename = Inr text
          \<and> json_load text = Inr document \<and> build_key_bytes document = Inl e \<longrightarrow>
        generate_key_file json_load repr fault t directory json_filename = (Failed e, t))
   \<and> (\<forall>text document uid key_bytes. read_file t directory json_filename = Inr text
          \<and> json_load text = Inr document \<and> build_key_bytes document = Inr (uid, key_bytes) \<longrightarrow>
        (\<forall>e. and_then (join_path directory (output_name repr uid)) (locate t) = Inl e \<longrightarrow>
           generate_key_file json_load repr fault t directory json_filename = (Failed e, t))
      \<and> (\<forall>dp f. and_then (join_path directory (output_name repr uid)) (locate t) = Inr (dp, f) \<longrightarrow>
           (fault (dp @ [f]) key_bytes = None \<longrightarrow>
              generate_key_file json_load repr fault t directory json_filename
                = (Generated (length key_bytes) (joined directory (output_name repr uid)),
                   store t dp f key_bytes))
         \<and> (\<forall>e k. fault (dp @ [f]) key_bytes = Some (e, k) \<longrightarrow>
              generate_key_file json_load repr fault t directory json_filename
                = (Failed e, store t dp f (take k key_bytes))
              \<and> read_file (store t dp f (take k key_bytes)) directory (output_name repr uid)
                = Inr (take k key_bytes))))
   \<and> (\<forall>r t'. generate_key_file json_load repr fault t directory json_filename = (r, t') \<and> t' \<noteq> t \<longrightarrow>
        (\<exists>text document uid key_bytes k.
            read_file t directory json_filename = Inr text
          \<and> json_load text = Inr document
          \<and> build_key_bytes document = Inr (uid, key_bytes)
          \<and> read_file t' directory (output_name repr uid) = Inr (take k key_bytes)))
   \<and> (\<forall>n p t'. generate_key_file json_load repr fault t directory json_filename = (Generated n p, t') \<longrightarrow>
        (\<exists>text document uid key_bytes.
            read_file t directory json_filename = Inr text
          \<and> json_load text = Inr document
          \<and> build_key_bytes document = Inr (uid, key_bytes)
          \<and> n = length key_bytes
          \<and> p = joined directory (output_name repr uid)
          \<and> read_file t' directory (output_name repr uid) = Inr key_bytes))"
proof -
  let ?g = "generate_key_file json_load repr fault t directory json_filename"
  have s1: "\<forall>e. read_file t directory json_filename = Inl e \<longrightarrow> ?g = (Failed e, t)"
    unfolding generate_key_file_def by (simp add: and_then_def)
  have s2: "\<forall>text e. read_file t directory json_filename = Inr text \<and> json_load text = Inl e \<longrightarrow>
        ?g = (Failed e, t)"
    unfolding generate_key_file_def by (simp add: and_then_def)
  have s3: "\<forall>text document e. read_file t directory json_filename = Inr text
          \<and> json_load text = Inr document \<and> build_key_bytes document = Inl e \<longrightarrow> ?g = (Failed e, t)"
    unfolding generate_key_file_def by (simp add: and_then_def)
  have s4: "(\<forall>e. and_then (join_path directory (output_name repr uid)) (locate t) = Inl e \<longrightarrow>
           ?g = (Failed e, t))
      \<and> (\<forall>dp f. and_then (join_path directory (output_name repr uid)) (locate t) = Inr (dp, f) \<longrightarrow>
           (fault (dp @ [f]) key_bytes = None \<longrightarrow>
              ?g = (Generated (length key_bytes) (joined directory (output_name repr uid)),
                   store t dp f key_bytes))
         \<and> (\<forall>e k. fault (dp @ [f]) key_bytes = Some (e, k) \<longrightarrow>
              ?g = (Failed e, store t dp f (take k key_bytes))
              \<and> read_file (store t dp f (take k key_bytes)) directory (output_name repr uid)
                = Inr (take k key_bytes)))"
    if h: "read_file t directory json_filename = Inr raw" "json_load raw = Inr doc"
      "build_key_bytes doc = Inr (uid, key_bytes)"
    for raw doc uid key_bytes
  proof -
    note g = generate_key_file_built [where json_load = json_load and repr = repr and fault = fault, OF h]
    have a: "\<forall>e. and_then (join_path directory (output_name repr uid)) (locate t) = Inl e \<longrightarrow>
           ?g = (Failed e, t)"
      using g write_file_refused [of directory "output_name repr uid" t _ fault key_bytes]
      by simp
    have b: "fault (dp @ [f]) key_bytes = None \<longrightarrow>
              ?g = (Generated (length key_bytes) (joined directory (output_name repr uid)),
                   store t dp f key_bytes)"
      if o: "and_then (join_path directory (output_name repr uid)) (locate t) = Inr (dp, f)"
      for dp f
      using g write_file_opened [OF o, of fault key_bytes] by simp
    have c: "\<forall>e k. fault (dp @ [f]) key_bytes = Some (e, k) \<longrightarrow>
              ?g = (Failed e, store t dp f (take k key_bytes))
              \<and> read_file (store t dp f (take k key_bytes)) directory (output_name repr uid)
                = Inr (take k key_bytes)"
      if o: "and_then (join_path directory (output_name repr uid)) (locate t) = Inr (dp, f)"
      for dp f
      using g write_file_opened [OF o, of fault key_bytes] read_after_open [OF o] by simp
    from a b c show ?thesis
      by blast
  qed
  have s5: "\<forall>r t'. ?g = (r, t') \<and> t' \<noteq> t \<longrightarrow>
        (\<exists>text document uid key_bytes k.
            read_file t directory json_filename = Inr text
          \<and> json_load text = Inr document
          \<and> build_key_bytes document = Inr (uid, key_bytes)
          \<and> read_file t' directory (output_name repr uid) = Inr (take k key_bytes))"
    using generate_key_file_changed [of json_load repr fault t directory json_filename]
    by blast
  have s6: "\<forall>n p t'. ?g = (Generated n p, t') \<longrightarrow>
        (\<exists>text document uid key_bytes.
            read_file t directory json_filename = Inr text
          \<and> json_load text = Inr document
          \<and> build_key_bytes document = Inr (uid, key_bytes)
          \<and> n = length key_bytes
          \<and> p = joined directory (output_name repr uid)
          \<and> read_file t' directory (output_name repr uid) = Inr key_bytes)"
    using generate_key_file_generated [of json_load repr fault t directory json_filename]
    by blast
  from s1 s2 s3 s4 s5 s6 show ?thesis
    by blast
qed

theorem generate_key_file_stages_witness:
  "read_file tree3 [py ''PLA'', py ''AABBCCDD''] (py ''hf-mf-dump.json'') = Inr [123, 125]
   \<and> build_key_bytes (JObj doc_bad_key) = Inl ValueError
   \<and> generate_key_file (\<lambda>text. Inr (JObj doc_bad_key)) (\<lambda>v. []) short_write tree3 [py ''PLA'', py ''AABBCCDD'']
        (py ''hf-mf-dump.json'') = (Failed ValueError, tree3)
   \<and> build_key_bytes (JObj doc3)
        = Inr (JStr (py ''04112233445566''), replicate 18 255 @ [170, 187, 204, 221, 238, 255] @ replicate 168 255)
   \<and> short_write [py ''PLA'', py ''AABBCCDD'', py ''hf-mf-04112233445566-key.bin'']
        (replicate 18 255 @ [170, 187, 204, 221, 238, 255] @ replicate 168 255) = Some (OSError, 20)
   \<and> generate_key_file (\<lambda>text. Inr (JObj doc3)) (\<lambda>v. []) short_write tree3 [py ''PLA'', py ''AABBCCDD'']
        (py ''hf-mf-dump.json'')
       = (Failed OSError,
          Dir [] [(py ''PLA'', Dir [] [(py ''AABBCCDD'',
            Dir [(py ''hf-mf-dump.json'', [123, 125]),
                 (py ''hf-mf-04112233445566-key.bin'', replicate 18 255 @ [170, 187])] [])])])"
proof -
  let ?d = "[py ''PLA'', py ''AABBCCDD'']"
  let ?j = "py ''hf-mf-dump.json''"
  let ?u = "JStr (py ''04112233445566'')"
  let ?k = "replicate 18 255 @ [170, 187, 204, 221, 238, 255] @ replicate 168 255"
  let ?n = "py ''hf-mf-04112233445566-key.bin''"
  have h1: "read_file tree3 ?d ?j = Inr [123, 125]"
    by code_simp
  have a2: "(\<lambda>text :: bytes. (Inr (JObj doc_bad_key) :: exn + json)) [123, 125] = Inr (JObj doc_bad_key)"
    by simp
  have a3: "build_key_bytes (JObj doc_bad_key) = Inl ValueError"
    by code_simp
  have b2: "(\<lambda>text :: bytes. (Inr (JObj doc3) :: exn + json)) [123, 125] = Inr (JObj doc3)"
    by simp
  have b3: "build_key_bytes (JObj doc3) = Inr (?u, ?k)"
    by code_simp
  have n: "output_name (\<lambda>v. []) ?u = ?n"
    by code_simp
  have o: "and_then (join_path ?d (output_name (\<lambda>v. []) ?u)) (locate tree3) = Inr (?d, ?n)"
    by code_simp
  have f: "short_write (?d @ [?n]) ?k = Some (OSError, 20)"
    by code_simp
  have f': "short_write [py ''PLA'', py ''AABBCCDD'', ?n] ?k = Some (OSError, 20)"
    by code_simp
  have s: "store tree3 ?d ?n (take 20 ?k)
           = Dir [] [(py ''PLA'', Dir [] [(py ''AABBCCDD'',
            Dir [(py ''hf-mf-dump.json'', [123, 125]),
                 (py ''hf-mf-04112233445566-key.bin'', replicate 18 255 @ [170, 187])] [])])]"
    by code_simp
  from generate_key_file_stages [of tree3 ?d ?j "\<lambda>text. Inr (JObj doc_bad_key)" "\<lambda>v. []" short_write]
    h1 a2 a3
  have a: "generate_key_file (\<lambda>text. Inr (JObj doc_bad_key)) (\<lambda>v. []) short_write tree3 ?d ?j
           = (Failed ValueError, tree3)"
    by blast
  from generate_key_file_stages [of tree3 ?d ?j "\<lambda>text. Inr (JObj doc3)" "\<lambda>v. []" short_write]
    h1 b2 b3 o f
  have "generate_key_file (\<lambda>text. Inr (JObj doc3)) (\<lambda>v. []) short_write tree3 ?d ?j
           = (Failed OSError, store tree3 ?d ?n (take 20 ?k))"
    by blast
  then have b: "generate_key_file (\<lambda>text. Inr (JObj doc3)) (\<lambda>v. []) short_write tree3 ?d ?j
       = (Failed OSError,
          Dir [] [(py ''PLA'', Dir [] [(py ''AABBCCDD'',
            Dir [(py ''hf-mf-dump.json'', [123, 125]),
                 (py ''hf-mf-04112233445566-key.bin'', replicate 18 255 @ [170, 187])] [])])])"
    unfolding s .
  from h1 a3 a b3 f' b show ?thesis
    by blast
qed

subsection \<open>C8: the fields taken from the path\<close>

lemma tc: "translate_color (py ''Black'') = [40657, 33394]"
  by (simp add: translate_color_def color_map_def)

lemma cd: "color_display (py ''Black'') = [40657, 33394] @ py ''/Black''"
  using tc by (simp add: color_display_def)

text \<open>
  C8, as stated, fails for a path of exactly three components: the test of the code is
  \<open>len(relevant_parts) >= 3\<close>, so category, type and colour are taken from the path and
  only the UID is the placeholder.
\<close>

theorem three_segments_counterexample:
  "extract_path_info [py ''..'', py ''PLA'', py ''PLA Basic'', py ''Black'']
     = (py ''PLA'', py ''PLA Basic'', py ''Black'', unknown, [40657, 33394] @ py ''/Black'')
   \<and> py ''PLA'' \<noteq> unknown"
  using tc by (simp add: extract_path_info_def unknown_def Let_def)

text \<open>
  C8, amended. With the components \<open>.\<close> and \<open>..\<close> left out: with four or more components,
  positions 0, 1, 2 and 3 are the material category, the material type, the colour and the
  UID; with exactly three, positions 0, 1 and 2 are category, type and colour and the UID
  is the placeholder for unknown; with fewer than three, all fields are that placeholder.
\<close>

theorem path_info_positions:
  "(length (relevant path_parts) \<ge> 4 \<longrightarrow>
      extract_path_info path_parts =
        (relevant path_parts ! 0, relevant path_parts ! 1, relevant path_parts ! 2,
         relevant path_parts ! 3, color_display (relevant path_parts ! 2)))
   \<and> (length (relevant path_parts) = 3 \<longrightarrow>
      extract_path_info path_parts =
        (relevant path_parts ! 0, relevant path_parts ! 1, relevant path_parts ! 2,
         unknown, color_display (relevant path_parts ! 2)))
   \<and> (length (relevant path_parts) < 3 \<longrightarrow>
      extract_path_info path_parts = (unknown, unknown, unknown, unknown, unknown))"
proof -
  have r: "filter (\<lambda>part. part \<notin> set [py ''.'', py ''..'']) path_parts = relevant path_parts"
    unfolding relevant_def by (rule filter_cong) auto
  show ?thesis
    unfolding extract_path_info_def r color_display_def Let_def
    by auto
qed

theorem path_info_positions_witness:
  "relevant [py ''..'', py ''PLA'', py ''PLA Basic'', py ''Black'', py ''AABBCCDD'', py ''hf-mf-AABBCCDD-dump.bin'']
     = [py ''PLA'', py ''PLA Basic'', py ''Black'', py ''AABBCCDD'', py ''hf-mf-AABBCCDD-dump.bin'']
   \<and> extract_path_info [py ''..'', py ''PLA'', py ''PLA Basic'', py ''Black'', py ''AABBCCDD'', py ''hf-mf-AABBCCDD-dump.bin'']
     = (py ''PLA'', py ''PLA Basic'', py ''Black'', py ''AABBCCDD'', [40657, 33394] @ py ''/Black'')
   \<and> relevant [py ''.'', py ''PLA'', py ''PLA Basic'', py ''Black''] = [py ''PLA'', py ''PLA Basic'', py ''Black'']
   \<and> extract_path_info [py ''.'', py ''PLA'', py ''PLA Basic'', py ''Black'']
     = (py ''PLA'', py ''PLA Basic'', py ''Black'', unknown, [40657, 33394] @ py ''/Black'')
   \<and> relevant [py ''..'', py ''PLA'', py ''AABBCCDD''] = [py ''PLA'', py ''AABBCCDD'']
   \<and> extract_path_info [py ''..'', py ''PLA'', py ''AABBCCDD'']
     = (unknown, unknown, unknown, unknown, unknown)"
proof -
  let ?p5 = "[py ''..'', py ''PLA'', py ''PLA Basic'', py ''Black'', py ''AABBCCDD'', py ''hf-mf-AABBCCDD-dump.bin'']"
  let ?p3 = "[py ''.'', py ''PLA'', py ''PLA Basic'', py ''Black'']"
  let ?p2 = "[py ''..'', py ''PLA'', py ''AABBCCDD'']"
  have r5: "relevant ?p5 = [py ''PLA'', py ''PLA Basic'', py ''Black'', py ''AABBCCDD'', py ''hf-mf-AABBCCDD-dump.bin'']"
    by (simp add: relevant_def)
  have r3: "relevant ?p3 = [py ''PLA'', py ''PLA Basic'', py ''Black'']"
    by (simp add: relevant_def)
  have r2: "relevant ?p2 = [py ''PLA'', py ''AABBCCDD'']"
    by (simp add: relevant_def)
  have l5: "length (relevant ?p5) \<ge> 4" unfolding r5 by simp
  have l3: "length (relevant ?p3) = 3" unfolding r3 by simp
  have l2: "length (relevant ?p2) < 3" unfolding r2 by simp
  have e5: "extract_path_info ?p5 = (py ''PLA'', py ''PLA Basic'', py ''Black'', py ''AABBCCDD'', [40657, 33394] @ py ''/Black'')"
    using path_info_positions [of ?p5] l5 cd unfolding r5 by simp
  have e3: "extract_path_info ?p3 = (py ''PLA'', py ''PLA Basic'', py ''Black'', unknown, [40657, 33394] @ py ''/Black'')"
    using path_info_positions [of ?p3] l3 cd unfolding r3 by simp
  have e2: "extract_path_info ?p2 = (unknown, unknown, unknown, unknown, unknown)"
    using path_info_positions [of ?p2] l2 by blast
  from r5 e5 r3 e3 r2 e2 show ?thesis by blast
qed

subsection \<open>C9: the row of a file whose parse failed\<close>








subsection \<open>The walk\<close>

text \<open>
  What the walk yields is what the loop body yields at the directories of the tree, and
  with a body that prunes only at the root, every directory below an unpruned name is
  visited.
\<close>

lemma os_walk_mem:
  assumes "body root (map fst subs) (map fst fs) = (dirs, out)"
  shows "x \<in> set (os_walk body root (Dir fs subs)) \<longleftrightarrow>
         x \<in> set out \<or> (\<exists>n d. n \<in> set dirs \<and> map_of subs n = Some d
                               \<and> x \<in> set (os_walk body (root @ [n]) d))"
proof -
  have "\<And>n. (x \<in> set (case map_of subs n of None \<Rightarrow> [] | Some d \<Rightarrow> os_walk body (root @ [n]) d))
        = (\<exists>d. map_of subs n = Some d \<and> x \<in> set (os_walk body (root @ [n]) d))"
  proof -
    fix n show "(x \<in> set (case map_of subs n of None \<Rightarrow> [] | Some d \<Rightarrow> os_walk body (root @ [n]) d))
        = (\<exists>d. map_of subs n = Some d \<and> x \<in> set (os_walk body (root @ [n]) d))"
      by (cases "map_of subs n") auto
  qed
  then show ?thesis
    using assms by auto
qed

lemma os_walk_sound:
  "x \<in> set (os_walk body root t) \<Longrightarrow>
   \<exists>p d. lookup_dir t p = Some d
       \<and> x \<in> set (snd (body (root @ p) (map fst (subdirs d)) (map fst (files d))))"
proof (induction body root t rule: os_walk.induct)
  case (1 body root fs subs)
  obtain dirs out where b: "body root (map fst subs) (map fst fs) = (dirs, out)"
    by (cases "body root (map fst subs) (map fst fs)")
  from "1.prems" consider "x \<in> set out"
    | n d where "n \<in> set dirs" "map_of subs n = Some d" "x \<in> set (os_walk body (root @ [n]) d)"
    unfolding os_walk_mem [of body root subs fs dirs out, OF b] by blast
  then show ?case
  proof cases
    case 1
    then have "lookup_dir (Dir fs subs) [] = Some (Dir fs subs)
       \<and> x \<in> set (snd (body (root @ []) (map fst (subdirs (Dir fs subs))) (map fst (files (Dir fs subs)))))"
      using b by simp
    then show ?thesis by blast
  next
    case 2
    from "1.IH" [OF b [symmetric] 2(1) 2(2) 2(3)] obtain p d' where
      "lookup_dir d p = Some d'"
      "x \<in> set (snd (body ((root @ [n]) @ p) (map fst (subdirs d')) (map fst (files d'))))"
      by blast
    then have "lookup_dir (Dir fs subs) (n # p) = Some d'
       \<and> x \<in> set (snd (body (root @ n # p) (map fst (subdirs d')) (map fst (files d'))))"
      using 2(2) by simp
    then show ?thesis by blast
  qed
qed

lemma os_walk_complete:
  assumes unpruned: "\<And>r dirs fs. r \<noteq> base_path \<Longrightarrow> fst (body r dirs fs) = dirs"
  shows "root \<noteq> base_path \<Longrightarrow> lookup_dir t p = Some d \<Longrightarrow>
         x \<in> set (snd (body (root @ p) (map fst (subdirs d)) (map fst (files d)))) \<Longrightarrow>
         x \<in> set (os_walk body root t)"
proof (induction p arbitrary: root t)
  case Nil
  obtain fs subs where t: "t = Dir fs subs" by (cases t)
  obtain dirs out where b: "body root (map fst subs) (map fst fs) = (dirs, out)"
    by (cases "body root (map fst subs) (map fst fs)")
  from Nil show ?case
    unfolding t os_walk_mem [of body root subs fs dirs out, OF b] using b by auto
next
  case (Cons n p)
  obtain fs subs where t: "t = Dir fs subs" by (cases t)
  from Cons.prems(2) obtain d1 where d1: "map_of subs n = Some d1" and l: "lookup_dir d1 p = Some d"
    by (auto simp: t split: option.splits)
  have "root @ [n] \<noteq> base_path"
    by (simp add: base_path_def)
  from Cons.IH [OF this l] Cons.prems(3) have x: "x \<in> set (os_walk body (root @ [n]) d1)"
    by simp
  have "n \<in> set (map fst subs)"
    using d1 by (metis map_of_SomeD image_eqI fst_conv set_map)
  then have "n \<in> set (fst (body root (map fst subs) (map fst fs)))"
    using unpruned [OF Cons.prems(1)] by simp
  moreover obtain dirs out where b: "body root (map fst subs) (map fst fs) = (dirs, out)"
    by (cases "body root (map fst subs) (map fst fs)")
  ultimately show ?case
    unfolding t os_walk_mem [of body root subs fs dirs out, OF b] using x d1 by auto
qed

lemma missing_body_out:
  "(d, j) \<in> set (snd (missing_body root dirs fs)) \<longleftrightarrow>
   d = root \<and> root \<noteq> base_path \<and> py ''scripts'' \<notin> set (parts root) \<and> is_uid_dir (name root)
   \<and> filter (\<lambda>f. endswith f (py ''dump.json'')) fs \<noteq> []
   \<and> j = hd (filter (\<lambda>f. endswith f (py ''dump.json'')) fs)
   \<and> filter (\<lambda>f. endswith f (py ''key.bin'')) fs = []"
  unfolding missing_body_def Let_def by auto

lemma rfid_body_out:
  "p \<in> set (snd (rfid_body root dirs fs)) \<longleftrightarrow>
   root \<noteq> base_path \<and> py ''scripts'' \<notin> set (parts root) \<and> is_uid_dir (name root)
   \<and> (\<exists>file \<in> set fs. endswith file (py ''dump.bin'') \<and> p = root @ [file])"
  unfolding rfid_body_def by auto

lemma missing_body_unpruned: "r \<noteq> base_path \<Longrightarrow> fst (missing_body r dirs fs) = dirs"
  unfolding missing_body_def Let_def by auto

lemma rfid_body_unpruned: "r \<noteq> base_path \<Longrightarrow> fst (rfid_body r dirs fs) = dirs"
  unfolding rfid_body_def by auto

lemma walk_from_base:
  assumes unpruned: "\<And>r dirs fs. r \<noteq> base_path \<Longrightarrow> fst (body r dirs fs) = dirs"
    and at_base: "\<And>dirs fs. body base_path dirs fs =
                    (if py ''scripts'' \<in> set dirs then remove1 (py ''scripts'') dirs else dirs, [])"
    and "lookup_dir t p = Some d" and "p \<noteq> []" and "hd p \<noteq> py ''scripts''"
    and "x \<in> set (snd (body p (map fst (subdirs d)) (map fst (files d))))"
  shows "x \<in> set (os_walk body base_path t)"
proof -
  obtain fs subs where t: "t = Dir fs subs" by (cases t)
  from assms(4) obtain n q where p: "p = n # q" by (cases p) auto
  from assms(3) obtain d1 where d1: "map_of subs n = Some d1" and l: "lookup_dir d1 q = Some d"
    by (auto simp: t p split: option.splits)
  have n: "n \<noteq> py ''scripts''" using assms(5) p by simp
  have "[n] \<noteq> base_path" by (simp add: base_path_def)
  from os_walk_complete [of body, OF unpruned this l] assms(6)
  have x: "x \<in> set (os_walk body [n] d1)"
    by (simp add: p)
  have "n \<in> set (map fst subs)"
    using d1 by (metis map_of_SomeD image_eqI fst_conv set_map)
  then have "n \<in> set (fst (body base_path (map fst subs) (map fst fs)))"
    using n by (simp add: at_base)
  moreover obtain dirs out where b: "body base_path (map fst subs) (map fst fs) = (dirs, out)"
    by (cases "body base_path (map fst subs) (map fst fs)")
  ultimately have "x \<in> set (os_walk body base_path (Dir fs subs))"
    unfolding os_walk_mem [of body base_path subs fs dirs out, OF b] using x d1 by (auto simp: base_path_def)
  then show ?thesis
    by (simp add: t)
qed

lemma hexdigit_literal: "c \<in> set (py ''0123456789ABCDEFabcdef'') \<longleftrightarrow> hexdigit c"
  unfolding hexdigit_def by simp arith

lemma name_nonempty: "p \<noteq> [] \<Longrightarrow> name p = last p"
  by (simp add: name_def parts_def)

lemma find_missing_iff:
  "(d, j) \<in> set (find_missing_key_files t) \<longleftrightarrow>
   d \<noteq> [] \<and> py ''scripts'' \<notin> set d \<and> is_uid_dir (last d)
   \<and> (\<exists>dd. lookup_dir t d = Some dd
         \<and> filter (\<lambda>f. endswith f (py ''dump.json'')) (map fst (files dd)) \<noteq> []
         \<and> j = hd (filter (\<lambda>f. endswith f (py ''dump.json'')) (map fst (files dd)))
         \<and> filter (\<lambda>f. endswith f (py ''key.bin'')) (map fst (files dd)) = [])"
  (is "?l \<longleftrightarrow> ?r")
proof
  assume ?l
  then have "(d, j) \<in> set (os_walk missing_body base_path t)"
    unfolding find_missing_key_files_def .
  from os_walk_sound [OF this] obtain p dd where l: "lookup_dir t p = Some dd"
    and o: "(d, j) \<in> set (snd (missing_body (base_path @ p) (map fst (subdirs dd)) (map fst (files dd))))"
    by blast
  from o have "d = p" and "p \<noteq> []" and "py ''scripts'' \<notin> set p" and "is_uid_dir (name p)"
    unfolding missing_body_out by (auto simp: base_path_def parts_def)
  with l o show ?r
    unfolding missing_body_out by (auto simp: name_nonempty base_path_def)
next
  assume r: ?r
  then obtain dd where l: "lookup_dir t d = Some dd"
    and f: "filter (\<lambda>f. endswith f (py ''dump.json'')) (map fst (files dd)) \<noteq> []"
      "j = hd (filter (\<lambda>f. endswith f (py ''dump.json'')) (map fst (files dd)))"
      "filter (\<lambda>f. endswith f (py ''key.bin'')) (map fst (files dd)) = []"
    by blast
  from r have d: "d \<noteq> []" "py ''scripts'' \<notin> set d" "is_uid_dir (last d)"
    by blast+
  then have h: "hd d \<noteq> py ''scripts''"
    by (cases d) auto
  have "(d, j) \<in> set (snd (missing_body d (map fst (subdirs dd)) (map fst (files dd))))"
    unfolding missing_body_out using d f by (simp add: name_nonempty base_path_def parts_def)
  from walk_from_base [of missing_body, OF missing_body_unpruned _ l d(1) h this]
  show ?l
    unfolding find_missing_key_files_def by (simp add: missing_body_def)
qed

lemma find_rfid_iff:
  "p \<in> set (find_rfid_files t) \<longleftrightarrow>
   (\<exists>d file dd. p = d @ [file] \<and> d \<noteq> [] \<and> py ''scripts'' \<notin> set d \<and> is_uid_dir (last d)
       \<and> lookup_dir t d = Some dd \<and> file \<in> set (map fst (files dd))
       \<and> endswith file (py ''dump.bin''))"
  (is "?l \<longleftrightarrow> ?r")
proof
  assume ?l
  then have "p \<in> set (os_walk rfid_body base_path t)"
    unfolding find_rfid_files_def .
  from os_walk_sound [OF this] obtain q dd where l: "lookup_dir t q = Some dd"
    and o: "p \<in> set (snd (rfid_body (base_path @ q) (map fst (subdirs dd)) (map fst (files dd))))"
    by blast
  from o obtain fname where "q \<noteq> []" "py ''scripts'' \<notin> set q" "is_uid_dir (name q)"
    "fname \<in> set (map fst (files dd))" "endswith fname (py ''dump.bin'')" "p = q @ [fname]"
    unfolding rfid_body_out by (auto simp: base_path_def parts_def)
  with l show ?r
    by (auto simp: name_nonempty)
next
  assume ?r
  then obtain d fname dd where p: "p = d @ [fname]" and d: "d \<noteq> []" "py ''scripts'' \<notin> set d"
    "is_uid_dir (last d)" and l: "lookup_dir t d = Some dd"
    and f: "fname \<in> set (map fst (files dd))" "endswith fname (py ''dump.bin'')"
    by blast
  from d have h: "hd d \<noteq> py ''scripts''"
    by (cases d) auto
  have "p \<in> set (snd (rfid_body d (map fst (subdirs dd)) (map fst (files dd))))"
    unfolding rfid_body_out using d f p by (auto simp: name_nonempty base_path_def parts_def)
  from walk_from_base [of rfid_body, OF rfid_body_unpruned _ l d(1) h this]
  show ?l
    unfolding find_rfid_files_def by (simp add: rfid_body_def)
qed

lemma scripts_not_dump: "\<not> endswith (py ''scripts'') (py ''dump.bin'')"
  by (simp add: endswith_def)

subsection \<open>C7: the tooling subtree is never classified\<close>

text \<open>
  C7. No directory that \<open>find_missing_key_files\<close> selects and no file that
  \<open>find_rfid_files\<close> lists has \<open>scripts\<close> among the components of its path, whatever the
  tree holds under such a directory.
\<close>

theorem scripts_excluded:
  "(\<forall>(d, j) \<in> set (find_missing_key_files t). py ''scripts'' \<notin> set (parts d))
   \<and> (\<forall>p \<in> set (find_rfid_files t). py ''scripts'' \<notin> set (parts p))"
proof -
  have "\<And>d j. (d, j) \<in> set (find_missing_key_files t) \<Longrightarrow> py ''scripts'' \<notin> set (parts d)"
    unfolding find_missing_iff by (simp add: parts_def)
  moreover have "\<And>p. p \<in> set (find_rfid_files t) \<Longrightarrow> py ''scripts'' \<notin> set (parts p)"
    unfolding find_rfid_iff using scripts_not_dump by (auto simp: parts_def)
  ultimately show ?thesis by blast
qed

lemma find_missing_scripts:
  "find_missing_key_files tree_scripts = [([py ''PLA'', py ''aAbB09fF''], py ''hf-mf-AABB09FF-dump.json'')]"
  by code_simp

lemma find_rfid_scripts:
  "find_rfid_files tree_scripts = [[py ''PLA'', py ''aAbB09fF'', py ''hf-mf-AABB09FF-dump.bin'']]"
  by code_simp

theorem scripts_excluded_witness:
  "lookup_dir tree_scripts [py ''scripts'', py ''AABBCCDD'']
     = Some (Dir [(py ''hf-mf-AABBCCDD-dump.json'', [1]), (py ''hf-mf-AABBCCDD-dump.bin'', [0])] [])
   \<and> is_uid_dir (py ''AABBCCDD'')
   \<and> lookup_dir tree_scripts [py ''PLA'', py ''scripts'', py ''11111111'']
     = Some (Dir [(py ''hf-mf-11111111-dump.json'', [1]), (py ''hf-mf-11111111-dump.bin'', [0])] [])
   \<and> is_uid_dir (py ''11111111'')
   \<and> find_missing_key_files tree_scripts
     = [([py ''PLA'', py ''aAbB09fF''], py ''hf-mf-AABB09FF-dump.json'')]
   \<and> find_rfid_files tree_scripts = [[py ''PLA'', py ''aAbB09fF'', py ''hf-mf-AABB09FF-dump.bin'']]
   \<and> list_all (\<lambda>(d, j). no_scripts d) (find_missing_key_files tree_scripts)
   \<and> list_all no_scripts (find_rfid_files tree_scripts)"
proof -
  have a: "lookup_dir tree_scripts [py ''scripts'', py ''AABBCCDD'']
     = Some (Dir [(py ''hf-mf-AABBCCDD-dump.json'', [1]), (py ''hf-mf-AABBCCDD-dump.bin'', [0])] [])"
    by code_simp
  have b: "is_uid_dir (py ''AABBCCDD'')"
    by code_simp
  have c: "lookup_dir tree_scripts [py ''PLA'', py ''scripts'', py ''11111111'']
     = Some (Dir [(py ''hf-mf-11111111-dump.json'', [1]), (py ''hf-mf-11111111-dump.bin'', [0])] [])"
    by code_simp
  have d: "is_uid_dir (py ''11111111'')"
    by code_simp
  from scripts_excluded [of tree_scripts]
  have "list_all (\<lambda>(d, j). no_scripts d) (find_missing_key_files tree_scripts)"
    and "list_all no_scripts (find_rfid_files tree_scripts)"
    unfolding list_all_iff no_scripts_def by blast+
  with a b c d find_missing_scripts find_rfid_scripts show ?thesis
    by blast
qed

subsection \<open>C6: the classifier of tag directories\<close>

text \<open>
  C6. A name is classified as a tag directory exactly when it has 8 characters and each
  is a hexadecimal digit, of either case. Both walks select only directories with such a
  name. In both scripts the classification decides the selection: of a directory below
  the root and outside \<open>scripts\<close>, \<open>find_rfid_files\<close> lists a \<open>dump.bin\<close> file exactly when
  the name of the directory is classified so, and \<open>find_missing_key_files\<close> selects the
  directory, when it holds a \<open>dump.json\<close> file and no \<open>key.bin\<close> file, with the first
  such file, exactly when its name is classified so.
\<close>

theorem uid_dir_classifier:
  "(is_uid_dir n \<longleftrightarrow> length n = 8 \<and> (\<forall>c \<in> set n. hexdigit c))
   \<and> (\<forall>(d, j) \<in> set (find_missing_key_files t). is_uid_dir (name d))
   \<and> (\<forall>p \<in> set (find_rfid_files t). is_uid_dir (name (butlast p)))
   \<and> (\<forall>d dd file. d \<noteq> [] \<and> py ''scripts'' \<notin> set d \<and> lookup_dir t d = Some dd
         \<and> file \<in> set (map fst (files dd)) \<and> endswith file (py ''dump.bin'') \<longrightarrow>
         (d @ [file] \<in> set (find_rfid_files t) \<longleftrightarrow> is_uid_dir (name d)))
   \<and> (\<forall>d dd. d \<noteq> [] \<and> py ''scripts'' \<notin> set d \<and> lookup_dir t d = Some dd
         \<and> filter (\<lambda>f. endswith f (py ''dump.json'')) (map fst (files dd)) \<noteq> []
         \<and> filter (\<lambda>f. endswith f (py ''key.bin'')) (map fst (files dd)) = [] \<longrightarrow>
         ((d, hd (filter (\<lambda>f. endswith f (py ''dump.json'')) (map fst (files dd))))
              \<in> set (find_missing_key_files t) \<longleftrightarrow> is_uid_dir (name d))
         \<and> (\<forall>j. (d, j) \<in> set (find_missing_key_files t) \<longrightarrow>
                j = hd (filter (\<lambda>f. endswith f (py ''dump.json'')) (map fst (files dd)))))"
proof -
  have a: "is_uid_dir n \<longleftrightarrow> length n = 8 \<and> (\<forall>c \<in> set n. hexdigit c)"
    unfolding is_uid_dir_def using hexdigit_literal by blast
  have b: "\<And>d j. (d, j) \<in> set (find_missing_key_files t) \<Longrightarrow> is_uid_dir (name d)"
    unfolding find_missing_iff by (simp add: name_nonempty)
  have c: "\<And>p. p \<in> set (find_rfid_files t) \<Longrightarrow> is_uid_dir (name (butlast p))"
    unfolding find_rfid_iff by (auto simp: name_nonempty)
  have d: "\<And>d dd file. d \<noteq> [] \<and> py ''scripts'' \<notin> set d \<and> lookup_dir t d = Some dd
         \<and> file \<in> set (map fst (files dd)) \<and> endswith file (py ''dump.bin'') \<Longrightarrow>
         (d @ [file] \<in> set (find_rfid_files t) \<longleftrightarrow> is_uid_dir (name d))"
    unfolding find_rfid_iff by (auto simp: name_nonempty)
  have e: "\<And>d dd. d \<noteq> [] \<and> py ''scripts'' \<notin> set d \<and> lookup_dir t d = Some dd
         \<and> filter (\<lambda>f. endswith f (py ''dump.json'')) (map fst (files dd)) \<noteq> []
         \<and> filter (\<lambda>f. endswith f (py ''key.bin'')) (map fst (files dd)) = [] \<Longrightarrow>
         ((d, hd (filter (\<lambda>f. endswith f (py ''dump.json'')) (map fst (files dd))))
              \<in> set (find_missing_key_files t) \<longleftrightarrow> is_uid_dir (name d))"
    unfolding find_missing_iff by (simp add: name_nonempty)
  have f: "\<And>d dd j. lookup_dir t d = Some dd \<Longrightarrow> (d, j) \<in> set (find_missing_key_files t) \<Longrightarrow>
                j = hd (filter (\<lambda>f. endswith f (py ''dump.json'')) (map fst (files dd)))"
    unfolding find_missing_iff by auto
  from a b c d e f show ?thesis by blast
qed

theorem uid_dir_classifier_witness:
  "is_uid_dir (py ''aAbB09fF'') \<and> \<not> is_uid_dir (py ''ABCDEFG1'') \<and> \<not> is_uid_dir (py ''ABCDEF1'')
   \<and> \<not> is_uid_dir (py ''AABBCCDD0'')
   \<and> find_rfid_files tree_scripts = [[py ''PLA'', py ''aAbB09fF'', py ''hf-mf-AABB09FF-dump.bin'']]
   \<and> ([py ''PLA'', py ''aAbB09fF''], py ''hf-mf-AABB09FF-dump.json'') \<in> set (find_missing_key_files tree_scripts)
   \<and> ([py ''PLA'', py ''ABCDEFG1''], py ''hf-mf-ABCDEFG1-dump.json'') \<notin> set (find_missing_key_files tree_scripts)
   \<and> [py ''PLA'', py ''ABCDEF1'', py ''hf-mf-ABCDEF1-dump.bin''] \<notin> set (find_rfid_files tree_scripts)"
proof -
  let ?json = "\<lambda>f. endswith f (py ''dump.json'')"
  let ?key = "\<lambda>f. endswith f (py ''key.bin'')"
  let ?da = "Dir [(py ''hf-mf-AABB09FF-dump.json'', [1]), (py ''hf-mf-AABB09FF-dump.bin'', [0])] []"
  let ?db = "Dir [(py ''hf-mf-ABCDEFG1-dump.json'', [1]), (py ''hf-mf-ABCDEFG1-dump.bin'', [0])] []"
  let ?dc = "Dir [(py ''hf-mf-ABCDEF1-dump.json'', [1]), (py ''hf-mf-ABCDEF1-dump.bin'', [0])] []"
  have "length (py ''aAbB09fF'') = 8 \<and> (\<forall>c \<in> set (py ''aAbB09fF''). hexdigit c)"
    by (simp add: hexdigit_def)
  with uid_dir_classifier [of "py ''aAbB09fF''" tree_scripts] have a: "is_uid_dir (py ''aAbB09fF'')"
    by blast
  have "\<not> (length (py ''ABCDEFG1'') = 8 \<and> (\<forall>c \<in> set (py ''ABCDEFG1''). hexdigit c))"
    by (simp add: hexdigit_def)
  with uid_dir_classifier [of "py ''ABCDEFG1''" tree_scripts] have b: "\<not> is_uid_dir (py ''ABCDEFG1'')"
    by blast
  have "\<not> (length (py ''ABCDEF1'') = 8 \<and> (\<forall>c \<in> set (py ''ABCDEF1''). hexdigit c))"
    by simp
  with uid_dir_classifier [of "py ''ABCDEF1''" tree_scripts] have c: "\<not> is_uid_dir (py ''ABCDEF1'')"
    by blast
  have "\<not> (length (py ''AABBCCDD0'') = 8 \<and> (\<forall>c \<in> set (py ''AABBCCDD0''). hexdigit c))"
    by simp
  with uid_dir_classifier [of "py ''AABBCCDD0''" tree_scripts] have d: "\<not> is_uid_dir (py ''AABBCCDD0'')"
    by blast
  have na: "name [py ''PLA'', py ''aAbB09fF''] = py ''aAbB09fF''"
    and nb: "name [py ''PLA'', py ''ABCDEFG1''] = py ''ABCDEFG1''"
    and nc: "name [py ''PLA'', py ''ABCDEF1''] = py ''ABCDEF1''"
    by (simp_all add: name_nonempty)
  have pa: "[py ''PLA'', py ''aAbB09fF''] \<noteq> [] \<and> py ''scripts'' \<notin> set [py ''PLA'', py ''aAbB09fF'']"
    and pb: "[py ''PLA'', py ''ABCDEFG1''] \<noteq> [] \<and> py ''scripts'' \<notin> set [py ''PLA'', py ''ABCDEFG1'']"
    and pc: "[py ''PLA'', py ''ABCDEF1''] \<noteq> [] \<and> py ''scripts'' \<notin> set [py ''PLA'', py ''ABCDEF1'']"
    by simp_all
  have la: "lookup_dir tree_scripts [py ''PLA'', py ''aAbB09fF''] = Some ?da"
    by code_simp
  have lb: "lookup_dir tree_scripts [py ''PLA'', py ''ABCDEFG1''] = Some ?db"
    by code_simp
  have lc: "lookup_dir tree_scripts [py ''PLA'', py ''ABCDEF1''] = Some ?dc"
    by code_simp
  have ja: "filter ?json (map fst (files ?da)) \<noteq> []"
    by code_simp
  have ka: "filter ?key (map fst (files ?da)) = []"
    by code_simp
  have ha: "hd (filter ?json (map fst (files ?da))) = py ''hf-mf-AABB09FF-dump.json''"
    by code_simp
  have jb: "filter ?json (map fst (files ?db)) \<noteq> []"
    by code_simp
  have kb: "filter ?key (map fst (files ?db)) = []"
    by code_simp
  have hb: "hd (filter ?json (map fst (files ?db))) = py ''hf-mf-ABCDEFG1-dump.json''"
    by code_simp
  have fc: "py ''hf-mf-ABCDEF1-dump.bin'' \<in> set (map fst (files ?dc))"
    by code_simp
  have ec: "endswith (py ''hf-mf-ABCDEF1-dump.bin'') (py ''dump.bin'')"
    by code_simp
  from uid_dir_classifier [of "py ''aAbB09fF''" tree_scripts] pa la ja ka
  have "([py ''PLA'', py ''aAbB09fF''], hd (filter ?json (map fst (files ?da))))
          \<in> set (find_missing_key_files tree_scripts) \<longleftrightarrow> is_uid_dir (name [py ''PLA'', py ''aAbB09fF''])"
    by blast
  with a have e: "([py ''PLA'', py ''aAbB09fF''], py ''hf-mf-AABB09FF-dump.json'')
          \<in> set (find_missing_key_files tree_scripts)"
    unfolding ha na by blast
  from uid_dir_classifier [of "py ''aAbB09fF''" tree_scripts] pb lb jb kb
  have "([py ''PLA'', py ''ABCDEFG1''], hd (filter ?json (map fst (files ?db))))
          \<in> set (find_missing_key_files tree_scripts) \<longleftrightarrow> is_uid_dir (name [py ''PLA'', py ''ABCDEFG1''])"
    by blast
  with b have f: "([py ''PLA'', py ''ABCDEFG1''], py ''hf-mf-ABCDEFG1-dump.json'')
          \<notin> set (find_missing_key_files tree_scripts)"
    unfolding hb nb by blast
  from uid_dir_classifier [of "py ''aAbB09fF''" tree_scripts] pc lc fc ec
  have "[py ''PLA'', py ''ABCDEF1''] @ [py ''hf-mf-ABCDEF1-dump.bin'']
          \<in> set (find_rfid_files tree_scripts) \<longleftrightarrow> is_uid_dir (name [py ''PLA'', py ''ABCDEF1''])"
    by blast
  with c have g: "[py ''PLA'', py ''ABCDEF1'', py ''hf-mf-ABCDEF1-dump.bin'']
          \<notin> set (find_rfid_files tree_scripts)"
    unfolding nc by simp
  from a b c d e f g find_rfid_scripts show ?thesis
    by blast
qed

subsection \<open>C5: repeating the synthesis pass\<close>






































end
